theory Spec2Isabelle
  imports Main
begin

section \<open>Python values used by \<^verbatim>\<open>scraper/article.py\<close>\<close>

text \<open>
  A Python \<^verbatim>\<open>str\<close> is a sequence of Unicode code points and a \<^verbatim>\<open>bytes\<close> object a
  sequence of numbers below 256; both are lists of naturals here. \<open>str_of\<close> turns an
  ASCII literal of the source into its code points.
\<close>

type_synonym ustr = "nat list"
type_synonym bytes = "nat list"

definition str_of :: "string \<Rightarrow> ustr" where
  "str_of s = map of_char s"

text \<open>Every \<^verbatim>\<open>raise\<close> the class can reach is a value of \<open>error\<close>; a method that may
  raise returns \<open>error + 'a\<close> with \<open>Inl\<close> for the exception.\<close>

datatype error =
    IndexError | AttributeError | KeyError | TypeError | ValueError
  | OverflowError | UnicodeEncodeError | UnicodeDecodeError

definition and_then :: "error + 'a \<Rightarrow> ('a \<Rightarrow> error + 'b) \<Rightarrow> error + 'b" where
  "and_then r f = (case r of Inl e \<Rightarrow> Inl e | Inr v \<Rightarrow> f v)"

text \<open>\<^verbatim>\<open>xs[i]\<close>: a negative index counts from the end, an index out of range raises.\<close>

definition getitem :: "'a list \<Rightarrow> int \<Rightarrow> error + 'a" where
  "getitem xs i =
     (if 0 \<le> i \<and> i < int (length xs) then Inr (xs ! nat i)
      else if i < 0 \<and> - int (length xs) \<le> i then Inr (xs ! nat (int (length xs) + i))
      else Inl IndexError)"

subsection \<open>String methods\<close>

text \<open>\<^verbatim>\<open>str.isspace\<close> for one code point (also the class \<^verbatim>\<open>\s\<close> of \<^verbatim>\<open>re\<close> on
  \<^verbatim>\<open>str\<close> patterns).\<close>

definition is_space :: "nat \<Rightarrow> bool" where
  "is_space c \<longleftrightarrow>
     (9 \<le> c \<and> c \<le> 13) \<or> (28 \<le> c \<and> c \<le> 32) \<or> c = 0x85 \<or> c = 0xA0 \<or> c = 0x1680 \<or>
     (0x2000 \<le> c \<and> c \<le> 0x200A) \<or> c = 0x2028 \<or> c = 0x2029 \<or> c = 0x202F \<or>
     c = 0x205F \<or> c = 0x3000"

definition lstrip :: "ustr \<Rightarrow> ustr" where
  "lstrip s = dropWhile is_space s"

definition rstrip :: "ustr \<Rightarrow> ustr" where
  "rstrip s = rev (dropWhile is_space (rev s))"

definition strip :: "ustr \<Rightarrow> ustr" where
  "strip s = rstrip (lstrip s)"

text \<open>\<^verbatim>\<open>s.rstrip('\n')\<close>.\<close>

definition rstrip_newline :: "ustr \<Rightarrow> ustr" where
  "rstrip_newline s = rev (dropWhile (\<lambda>c. c = 10) (rev s))"

text \<open>\<^verbatim>\<open>s.replace(a, b)\<close> for a one-character \<open>a\<close>.\<close>

definition replace_char :: "nat \<Rightarrow> ustr \<Rightarrow> ustr \<Rightarrow> ustr" where
  "replace_char a b s = concat (map (\<lambda>c. if c = a then b else [c]) s)"

text \<open>\<^verbatim>\<open>re.sub(' +', ' ', s)\<close>: every maximal run of spaces becomes one space.\<close>

fun collapse_spaces :: "ustr \<Rightarrow> ustr" where
  "collapse_spaces [] = []"
| "collapse_spaces [c] = [c]"
| "collapse_spaces (c # d # s) =
     (if c = 32 \<and> d = 32 then collapse_spaces (d # s)
      else c # collapse_spaces (d # s))"

text \<open>\<^verbatim>\<open>str.lower\<close> and \<^verbatim>\<open>str.capitalize\<close> follow the interpreter's Unicode
  tables, and \<^verbatim>\<open>hashlib.md5\<close> is a library function: on ASCII text the two string
  methods are computed here, and what is left to the interpreter is a \<open>runtime\<close>
  the class is run in.\<close>

record runtime =
  md5_hexdigest :: "bytes \<Rightarrow> ustr"
  lower_unicode :: "ustr \<Rightarrow> ustr"
  capitalize_unicode :: "ustr \<Rightarrow> ustr"

definition is_ascii :: "ustr \<Rightarrow> bool" where
  "is_ascii s = list_all (\<lambda>c. c < 128) s"

definition ascii_lower :: "nat \<Rightarrow> nat" where
  "ascii_lower c = (if 65 \<le> c \<and> c \<le> 90 then c + 32 else c)"

definition ascii_upper :: "nat \<Rightarrow> nat" where
  "ascii_upper c = (if 97 \<le> c \<and> c \<le> 122 then c - 32 else c)"

definition lower :: "runtime \<Rightarrow> ustr \<Rightarrow> ustr" where
  "lower rt s = (if is_ascii s then map ascii_lower s else lower_unicode rt s)"

definition capitalize :: "runtime \<Rightarrow> ustr \<Rightarrow> ustr" where
  "capitalize rt s =
     (if is_ascii s
      then (case s of [] \<Rightarrow> [] | c # cs \<Rightarrow> ascii_upper c # map ascii_lower cs)
      else capitalize_unicode rt s)"

subsection \<open>Decimal digits and \<^verbatim>\<open>int\<close>\<close>

text \<open>The class \<^verbatim>\<open>\d\<close> of a \<^verbatim>\<open>str\<close> pattern is the Unicode category Nd, and
  \<^verbatim>\<open>int\<close> reads the same digits. Each block of Nd is ten consecutive code points with
  the values 0 to 9 (Unicode 14); \<open>nd_blocks\<close> lists the first code point of every block
  after the ASCII one.\<close>

definition nd_blocks :: "nat list" where
  "nd_blocks =
     [0x660, 0x6F0, 0x7C0, 0x966, 0x9E6, 0xA66, 0xAE6, 0xB66,
      0xBE6, 0xC66, 0xCE6, 0xD66, 0xDE6, 0xE50, 0xED0, 0xF20,
      0x1040, 0x1090, 0x17E0, 0x1810, 0x1946, 0x19D0, 0x1A80, 0x1A90,
      0x1B50, 0x1BB0, 0x1C40, 0x1C50, 0xA620, 0xA8D0, 0xA900, 0xA9D0,
      0xA9F0, 0xAA50, 0xABF0, 0xFF10, 0x104A0, 0x10D30, 0x11066, 0x110F0,
      0x11136, 0x111D0, 0x112F0, 0x11450, 0x114D0, 0x11650, 0x116C0, 0x11730,
      0x118E0, 0x11950, 0x11C50, 0x11D50, 0x11DA0, 0x16A60, 0x16AC0, 0x16B50,
      0x1D7CE, 0x1D7D8, 0x1D7E2, 0x1D7EC, 0x1D7F6, 0x1E140, 0x1E2F0, 0x1E950,
      0x1FBF0]"

definition decimal_value :: "nat \<Rightarrow> nat option" where
  "decimal_value c =
     (if c < 0x660 then (if 48 \<le> c \<and> c \<le> 57 then Some (c - 48) else None)
      else map_option (\<lambda>b. c - b) (find (\<lambda>b. b \<le> c \<and> c < b + 10) nd_blocks))"

definition is_decimal :: "nat \<Rightarrow> bool" where
  "is_decimal c = (decimal_value c \<noteq> None)"

text \<open>\<^verbatim>\<open>int(s)\<close> in base ten: surrounding whitespace, a sign, and decimal digits with
  single underscores between them; anything else raises ValueError. (The limit of
  later interpreters on the number of digits is not part of the model.)\<close>

fun int_digits :: "nat \<Rightarrow> ustr \<Rightarrow> nat option" where
  "int_digits acc [] = Some acc"
| "int_digits acc [c] =
     (case decimal_value c of Some v \<Rightarrow> Some (acc * 10 + v) | None \<Rightarrow> None)"
| "int_digits acc (c # d # s) =
     (if c = 95
      then (case decimal_value d of
              Some v \<Rightarrow> int_digits (acc * 10 + v) s
            | None \<Rightarrow> None)
      else (case decimal_value c of
              Some v \<Rightarrow> int_digits (acc * 10 + v) (d # s)
            | None \<Rightarrow> None))"

definition int_unsigned :: "ustr \<Rightarrow> nat option" where
  "int_unsigned s =
     (case s of
        [] \<Rightarrow> None
      | c # r \<Rightarrow> (case decimal_value c of Some v \<Rightarrow> int_digits v r | None \<Rightarrow> None))"

definition py_int :: "ustr \<Rightarrow> error + int" where
  "py_int s =
     (let t = strip s;
          neg = (t \<noteq> [] \<and> hd t = 45);
          d = (if t \<noteq> [] \<and> (hd t = 43 \<or> hd t = 45) then tl t else t)
      in case int_unsigned d of
           None \<Rightarrow> Inl ValueError
         | Some n \<Rightarrow> Inr (if neg then - int n else int n))"

subsection \<open>UTF-8\<close>

text \<open>\<^verbatim>\<open>str.encode()\<close>: UTF-8, strict. A lone surrogate cannot be encoded.\<close>

definition encode_cp :: "nat \<Rightarrow> error + bytes" where
  "encode_cp c =
     (if c < 0x80 then Inr [c]
      else if c < 0x800 then Inr [0xC0 + c div 64, 0x80 + c mod 64]
      else if c < 0x10000 then
        (if 0xD800 \<le> c \<and> c \<le> 0xDFFF then Inl UnicodeEncodeError
         else Inr [0xE0 + c div 4096, 0x80 + (c div 64) mod 64, 0x80 + c mod 64])
      else if c < 0x110000 then
        Inr [0xF0 + c div 262144, 0x80 + (c div 4096) mod 64,
             0x80 + (c div 64) mod 64, 0x80 + c mod 64]
      else Inl UnicodeEncodeError)"

fun utf8_encode :: "ustr \<Rightarrow> error + bytes" where
  "utf8_encode [] = Inr []"
| "utf8_encode (c # s) =
     and_then (encode_cp c) (\<lambda>b. and_then (utf8_encode s) (\<lambda>bs. Inr (b @ bs)))"

text \<open>\<^verbatim>\<open>bytes.decode('utf-8')\<close>: strict, so overlong forms, surrogates, stray
  continuation bytes and truncated sequences raise.\<close>

definition is_cont :: "nat \<Rightarrow> bool" where
  "is_cont b \<longleftrightarrow> 0x80 \<le> b \<and> b \<le> 0xBF"

definition decode_cp :: "bytes \<Rightarrow> (nat \<times> bytes) option" where
  "decode_cp bs =
     (case bs of
        [] \<Rightarrow> None
      | b0 # r \<Rightarrow>
          if b0 < 0x80 then Some (b0, r)
          else if 0xC2 \<le> b0 \<and> b0 \<le> 0xDF then
            (case r of
               b1 # r1 \<Rightarrow>
                 if is_cont b1 then Some ((b0 - 0xC0) * 64 + (b1 - 0x80), r1) else None
             | _ \<Rightarrow> None)
          else if 0xE0 \<le> b0 \<and> b0 \<le> 0xEF then
            (case r of
               b1 # b2 # r2 \<Rightarrow>
                 if is_cont b1 \<and> is_cont b2 \<and> (if b0 = 0xE0 then 0xA0 \<le> b1 else True)
                    \<and> (if b0 = 0xED then b1 \<le> 0x9F else True)
                 then Some ((b0 - 0xE0) * 4096 + (b1 - 0x80) * 64 + (b2 - 0x80), r2)
                 else None
             | _ \<Rightarrow> None)
          else if 0xF0 \<le> b0 \<and> b0 \<le> 0xF4 then
            (case r of
               b1 # b2 # b3 # r3 \<Rightarrow>
                 if is_cont b1 \<and> is_cont b2 \<and> is_cont b3
                    \<and> (if b0 = 0xF0 then 0x90 \<le> b1 else True)
                    \<and> (if b0 = 0xF4 then b1 \<le> 0x8F else True)
                 then Some ((b0 - 0xF0) * 262144 + (b1 - 0x80) * 4096
                            + (b2 - 0x80) * 64 + (b3 - 0x80), r3)
                 else None
             | _ \<Rightarrow> None)
          else None)"

lemma decode_cp_shorter: "decode_cp bs = Some (c, r) \<Longrightarrow> length r < length bs"
  by (auto simp: decode_cp_def split: list.splits if_splits)

function utf8_decode :: "bytes \<Rightarrow> error + ustr" where
  "utf8_decode bs =
     (if bs = [] then Inr []
      else (case decode_cp bs of
              None \<Rightarrow> Inl UnicodeDecodeError
            | Some (c, r) \<Rightarrow> and_then (utf8_decode r) (\<lambda>s. Inr (c # s))))"
  by pat_completeness auto
termination
  by (relation "measure length") (auto dest: decode_cp_shorter)

text \<open>\<^verbatim>\<open>b.replace(old, new)\<close>: the occurrences of \<open>old\<close> from the left, none
  overlapping another.\<close>

function bytes_replace :: "bytes \<Rightarrow> bytes \<Rightarrow> bytes \<Rightarrow> bytes" where
  "bytes_replace old new b =
     (if old = [] then new @ concat (map (\<lambda>x. x # new) b)
      else if b = [] then []
      else if take (length old) b = old
        then new @ bytes_replace old new (drop (length old) b)
      else hd b # bytes_replace old new (tl b))"
  by pat_completeness auto
termination
  by (relation "measure (\<lambda>(old, new, b). length b)") auto

subsection \<open>The two string helpers of the class\<close>

text \<open>\<^verbatim>\<open>_sanitize\<close>: the falsy (empty) string falls through the \<^verbatim>\<open>if\<close> and the
  method returns \<^verbatim>\<open>None\<close>.\<close>

definition sanitize :: "ustr \<Rightarrow> ustr option" where
  "sanitize string =
     (if string \<noteq> []
      then Some (replace_char 0x200B [] (replace_char 10 [] string))
      else None)"

text \<open>\<^verbatim>\<open>_do_magic\<close>; its argument is what \<^verbatim>\<open>_sanitize\<close> returned, so it may be
  \<^verbatim>\<open>None\<close>.\<close>

definition do_magic :: "ustr option \<Rightarrow> error + ustr option" where
  "do_magic string =
     (case string of
        None \<Rightarrow> Inr None
      | Some s \<Rightarrow>
          if s \<noteq> [] then
            and_then (utf8_encode s) (\<lambda>b.
            and_then (utf8_decode (bytes_replace [0xC5, 0xA2, 0xC4, 0x82] [0x54, 0x41] b))
              (\<lambda>t. Inr (Some t)))
          else Inr None)"

section \<open>The parsed HTML: the part of BeautifulSoup the class calls\<close>

text \<open>A parsed document is a tree of tags and strings. \<^verbatim>\<open>find_all(name)\<close> and the CSS
  selector \<^verbatim>\<open>select(name)\<close> of a bare tag name return the descendants with that name
  in document order, \<^verbatim>\<open>find(name)\<close> the first of them or \<^verbatim>\<open>None\<close>, \<^verbatim>\<open>.text\<close> the
  strings below a tag joined, \<^verbatim>\<open>.attrs\<close> the attributes of a tag.\<close>

datatype node = Text ustr | Tag ustr "(ustr \<times> ustr) list" "node list"

fun descendants :: "node \<Rightarrow> node list" where
  "descendants (Text t) = []"
| "descendants (Tag n a cs) = concat (map (\<lambda>c. c # descendants c) cs)"

fun text_of :: "node \<Rightarrow> ustr" where
  "text_of (Text t) = t"
| "text_of (Tag n a cs) = concat (map text_of cs)"

fun is_tag :: "ustr \<Rightarrow> node \<Rightarrow> bool" where
  "is_tag name (Text t) = False"
| "is_tag name (Tag n a cs) = (n = name)"

fun attrs :: "node \<Rightarrow> (ustr \<times> ustr) list" where
  "attrs (Text t) = []"
| "attrs (Tag n a cs) = a"

definition find_all :: "ustr \<Rightarrow> node \<Rightarrow> node list" where
  "find_all name n = filter (is_tag name) (descendants n)"

definition select :: "ustr \<Rightarrow> node \<Rightarrow> node list" where
  "select name n = find_all name n"

definition find_first :: "ustr \<Rightarrow> node \<Rightarrow> node option" where
  "find_first name n = (case find_all name n of [] \<Rightarrow> None | x # _ \<Rightarrow> Some x)"

text \<open>An attribute of \<^verbatim>\<open>None\<close> (what \<^verbatim>\<open>find\<close> returned) raises AttributeError, a
  missing key of \<^verbatim>\<open>attrs\<close> KeyError.\<close>

definition deref :: "'a option \<Rightarrow> error + 'a" where
  "deref x = (case x of None \<Rightarrow> Inl AttributeError | Some v \<Rightarrow> Inr v)"

definition attr :: "node \<Rightarrow> ustr \<Rightarrow> error + ustr" where
  "attr n k = (case map_of (attrs n) k of None \<Rightarrow> Inl KeyError | Some v \<Rightarrow> Inr v)"

section \<open>Regular expressions: the part of \<^verbatim>\<open>re\<close> the class uses\<close>

text \<open>The patterns of the class use character classes, sequence, alternation, the
  greedy and the lazy star, the option and capture groups. \<open>matches r (s, c)\<close> lists,
  in the order a backtracking matcher tries them, the ways \<open>r\<close> matches a prefix of
  \<open>s\<close>: what is left of \<open>s\<close> and the groups captured so far. The first element is the
  match \<^verbatim>\<open>re\<close> reports. An iteration of a star that consumes nothing is dropped (no star
  of the class has a body that matches the empty string), so the length of the input
  bounds the number of iterations.\<close>

datatype atom = Chr nat | Range nat nat | Digit | Space | AnyChar

datatype regex =
    Eps
  | Cls "atom list"
  | Seq regex regex
  | Alt regex regex
  | Star regex
  | Lazy regex
  | Opt regex
  | Grp nat regex

type_synonym groups = "nat \<Rightarrow> ustr option"
type_synonym mstate = "ustr \<times> groups"

fun atom_ok :: "atom \<Rightarrow> nat \<Rightarrow> bool" where
  "atom_ok (Chr a) c = (c = a)"
| "atom_ok (Range a b) c = (a \<le> c \<and> c \<le> b)"
| "atom_ok Digit c = is_decimal c"
| "atom_ok Space c = is_space c"
| "atom_ok AnyChar c = (c \<noteq> 10)"

definition consumed :: "mstate \<Rightarrow> mstate \<Rightarrow> bool" where
  "consumed st st' \<longleftrightarrow> length (fst st') < length (fst st)"

fun iter_greedy :: "(mstate \<Rightarrow> mstate list) \<Rightarrow> nat \<Rightarrow> mstate \<Rightarrow> mstate list" where
  "iter_greedy f 0 st = [st]"
| "iter_greedy f (Suc n) st =
     concat (map (iter_greedy f n) (filter (consumed st) (f st))) @ [st]"

fun iter_lazy :: "(mstate \<Rightarrow> mstate list) \<Rightarrow> nat \<Rightarrow> mstate \<Rightarrow> mstate list" where
  "iter_lazy f 0 st = [st]"
| "iter_lazy f (Suc n) st =
     st # concat (map (iter_lazy f n) (filter (consumed st) (f st)))"

definition capture :: "nat \<Rightarrow> ustr \<Rightarrow> mstate \<Rightarrow> mstate" where
  "capture i s st = (fst st, (snd st)(i \<mapsto> take (length s - length (fst st)) s))"

fun matches :: "regex \<Rightarrow> mstate \<Rightarrow> mstate list" where
  "matches Eps st = [st]"
| "matches (Cls as) st =
     (case fst st of
        [] \<Rightarrow> []
      | x # xs \<Rightarrow> if list_ex (\<lambda>a. atom_ok a x) as then [(xs, snd st)] else [])"
| "matches (Seq a b) st = concat (map (\<lambda>st'. matches b st') (matches a st))"
| "matches (Alt a b) st = matches a st @ matches b st"
| "matches (Star a) st = iter_greedy (\<lambda>st'. matches a st') (length (fst st)) st"
| "matches (Lazy a) st = iter_lazy (\<lambda>st'. matches a st') (length (fst st)) st"
| "matches (Opt a) st = matches a st @ [st]"
| "matches (Grp i a) st = map (capture i (fst st)) (matches a st)"

text \<open>\<^verbatim>\<open>re.search\<close>: the first position of the string at which the pattern matches,
  and there the first match. The match object is its groups, group 0 the whole match;
  a group that took no part in the match is \<^verbatim>\<open>None\<close>.\<close>

fun search_from :: "regex \<Rightarrow> ustr \<Rightarrow> groups option" where
  "search_from r [] =
     (case matches r ([], Map.empty) of [] \<Rightarrow> None | st # _ \<Rightarrow> Some (snd st))"
| "search_from r (x # s) =
     (case matches r (x # s, Map.empty) of
        [] \<Rightarrow> search_from r s
      | st # _ \<Rightarrow> Some (snd st))"

definition re_search :: "regex \<Rightarrow> ustr \<Rightarrow> groups option" where
  "re_search r s = search_from (Grp 0 r) s"

subsection \<open>The patterns of the class\<close>

fun lit :: "ustr \<Rightarrow> regex" where
  "lit [] = Eps"
| "lit [c] = Cls [Chr c]"
| "lit (c # s) = Seq (Cls [Chr c]) (lit s)"

definition some :: "regex \<Rightarrow> regex" where
  "some r = Seq r (Star r)"

definition digit :: regex where
  "digit = Cls [Digit]"

definition space :: regex where
  "space = Cls [Space]"

definition alpha :: regex where
  "alpha = Cls [Range 97 122, Range 65 90]"

definition chr :: "nat \<Rightarrow> regex" where
  "chr c = Cls [Chr c]"

definition seqs :: "regex list \<Rightarrow> regex" where
  "seqs rs = foldr Seq rs Eps"

text \<open>\<^verbatim>\<open>DATE_REGX = r'(\d+)\s([a-zA-Z]*)\s(\d{4})'\<close>\<close>

definition DATE_REGX :: regex where
  "DATE_REGX =
     seqs [Grp 1 (some digit), space, Grp 2 (Star alpha), space,
           Grp 3 (seqs [digit, digit, digit, digit])]"

text \<open>\<^verbatim>\<open>TIMEDELTA_REGX = '(timp\sde\s([0-9]+)\szile)'\<close>\<close>

definition TIMEDELTA_REGX :: regex where
  "TIMEDELTA_REGX =
     Grp 1 (seqs [lit (str_of ''timp''), space, lit (str_of ''de''), space,
                  Grp 2 (some (Cls [Range 48 57])), space, lit (str_of ''zile'')])"

text \<open>\<^verbatim>\<open>CONTACT_REGX\<close>, in the order of the dictionary:
  \<^verbatim>\<open>email=r'\s(([a-zA-Z0-9\._]|\.)*?@[a-zA-Z]*?\.[a-zA-Z]*?)(?:\s|\.|,)'\<close>,
  \<^verbatim>\<open>tel=r'(?:tel|telefon)\s?:?\s*((\d+(?:\s|-|\.)?)+)(,|\s|\.)?'\<close>,
  \<^verbatim>\<open>fax=r'fax\s?:?\s*((\d+(?:\s|-|\.)?)+)(,|\s|\.)?'\<close>,
  \<^verbatim>\<open>addr=r'adresa po\u015ftal\u0103\s?a?\s*(.*?\scod(:|\s)?\d+)'\<close>.\<close>

definition number_groups :: regex where
  "number_groups =
     seqs [Grp 1 (some (Grp 2 (Seq (some digit) (Opt (Alt space (Alt (chr 45) (chr 46))))))),
           Opt (Grp 3 (Alt (chr 44) (Alt space (chr 46))))]"

definition EMAIL_REGX :: regex where
  "EMAIL_REGX =
     seqs [space,
           Grp 1 (seqs [Lazy (Grp 2 (Alt (Cls [Range 97 122, Range 65 90, Range 48 57,
                                                Chr 46, Chr 95])
                                          (chr 46))),
                        chr 64, Lazy alpha, chr 46, Lazy alpha]),
           Alt space (Alt (chr 46) (chr 44))]"

definition TEL_REGX :: regex where
  "TEL_REGX =
     seqs [Alt (lit (str_of ''tel'')) (lit (str_of ''telefon'')),
           Opt space, Opt (chr 58), Star space, number_groups]"

definition FAX_REGX :: regex where
  "FAX_REGX = seqs [lit (str_of ''fax''), Opt space, Opt (chr 58), Star space, number_groups]"

definition ADDR_REGX :: regex where
  "ADDR_REGX =
     seqs [lit (str_of ''adresa po'' @ [0x15F] @ str_of ''tal'' @ [0x103]),
           Opt space, Opt (chr 97), Star space,
           Grp 1 (seqs [Lazy (Cls [AnyChar]), space, lit (str_of ''cod''),
                        Opt (Grp 2 (Alt (chr 58) space)), some digit])]"

definition CONTACT_REGX :: "(ustr \<times> regex) list" where
  "CONTACT_REGX =
     [(str_of ''email'', EMAIL_REGX), (str_of ''tel'', TEL_REGX),
      (str_of ''fax'', FAX_REGX), (str_of ''addr'', ADDR_REGX)]"

section \<open>Dates: the part of \<^verbatim>\<open>datetime\<close> the class uses\<close>

text \<open>A \<^verbatim>\<open>date\<close> is kept as its proleptic Gregorian ordinal (\<^verbatim>\<open>date.toordinal()\<close>,
  1 for 0001-01-01); the ordinals of the dates of the years 1 to 9999 are 1 to
  3652059. \<^verbatim>\<open>date(year, month, day)\<close> raises ValueError unless the three numbers name
  a day of the calendar; the ordinal is computed as \<^verbatim>\<open>datetime\<close> computes it.\<close>

datatype date = Date int

fun toordinal :: "date \<Rightarrow> int" where
  "toordinal (Date n) = n"

definition is_leap :: "int \<Rightarrow> bool" where
  "is_leap y \<longleftrightarrow> y mod 4 = 0 \<and> (y mod 100 \<noteq> 0 \<or> y mod 400 = 0)"

definition days_before_year :: "int \<Rightarrow> int" where
  "days_before_year y = (y - 1) * 365 + (y - 1) div 4 - (y - 1) div 100 + (y - 1) div 400"

definition DAYS_IN_MONTH :: "int list" where
  "DAYS_IN_MONTH = [31, 28, 31, 30, 31, 30, 31, 31, 30, 31, 30, 31]"

definition days_in_month :: "int \<Rightarrow> int \<Rightarrow> int" where
  "days_in_month y m = (if m = 2 \<and> is_leap y then 29 else DAYS_IN_MONTH ! nat (m - 1))"

definition days_before_month :: "int \<Rightarrow> int \<Rightarrow> int" where
  "days_before_month y m =
     sum_list (take (nat (m - 1)) DAYS_IN_MONTH) + (if 2 < m \<and> is_leap y then 1 else 0)"

definition MAXORDINAL :: int where
  "MAXORDINAL = 3652059"

definition date_new :: "int \<Rightarrow> int \<Rightarrow> int \<Rightarrow> error + date" where
  "date_new y m d =
     (if 1 \<le> y \<and> y \<le> 9999 \<and> 1 \<le> m \<and> m \<le> 12 \<and> 1 \<le> d \<and> d \<le> days_in_month y m
      then Inr (Date (days_before_year y + days_before_month y m + d))
      else Inl ValueError)"

text \<open>\<^verbatim>\<open>timedelta(days=n)\<close> is its number of days, at most 999999999 either way;
  \<^verbatim>\<open>d + timedelta\<close> raises OverflowError when the result leaves the years 1 to 9999,
  and TypeError when \<open>d\<close> is \<^verbatim>\<open>None\<close>; \<^verbatim>\<open>(d1 - d2).days\<close> is the difference of the
  ordinals, and TypeError when \<open>d2\<close> is \<^verbatim>\<open>None\<close>.\<close>

definition timedelta :: "int \<Rightarrow> error + int" where
  "timedelta n = (if - 999999999 \<le> n \<and> n \<le> 999999999 then Inr n else Inl OverflowError)"

definition date_add :: "date option \<Rightarrow> int \<Rightarrow> error + date" where
  "date_add d n =
     (case d of
        None \<Rightarrow> Inl TypeError
      | Some d' \<Rightarrow>
          if 0 < toordinal d' + n \<and> toordinal d' + n \<le> MAXORDINAL
          then Inr (Date (toordinal d' + n))
          else Inl OverflowError)"

definition days_between :: "date \<Rightarrow> date option \<Rightarrow> error + int" where
  "days_between d1 d2 =
     (case d2 of None \<Rightarrow> Inl TypeError | Some d \<Rightarrow> Inr (toordinal d1 - toordinal d))"

section \<open>The settings and the Article\<close>

text \<open>\<^verbatim>\<open>scraper.settings\<close> is configuration: the table of type codes, the table of
  month numbers, the base URL of the documents and the names of the mandatory
  fields.\<close>

record settings =
  TYPES :: "ustr \<Rightarrow> ustr option"
  MONTHS :: "ustr \<Rightarrow> int option"
  MAE_BASE_URL :: ustr
  MANDATORY_FIELDS :: "ustr list"

text \<open>\<^verbatim>\<open>d.get(k)\<close> with a key that may be \<^verbatim>\<open>None\<close>: the tables have strings as keys.\<close>

definition get :: "(ustr \<Rightarrow> 'v option) \<Rightarrow> ustr option \<Rightarrow> 'v option" where
  "get d k = (case k of None \<Rightarrow> None | Some k' \<Rightarrow> d k')"

record document =
  type :: "ustr option"
  url :: ustr

text \<open>The attributes of an Article; the class gives each the default \<^verbatim>\<open>None\<close>. The
  contact dictionary is the list of its items in insertion order.\<close>

record article =
  "identifier" :: "ustr option"
  article_type :: "ustr option"
  title :: "ustr option"
  documents :: "document list option"
  published_at :: "date option"
  feedback_days :: "int option"
  contact :: "(ustr \<times> ustr) list option"

definition new_article :: article where
  "new_article =
     \<lparr>identifier = None, article_type = None, title = None, documents = None,
      published_at = None, feedback_days = None, contact = None\<rparr>"

definition ANEXA :: ustr where
  "ANEXA = str_of '' - ANEXA''"

text \<open>\<^verbatim>\<open>DESCRIPTION_FMT.format(a, b)\<close> with \<^verbatim>\<open>DESCRIPTION_FMT = '{0} {1}'\<close>.\<close>

definition DESCRIPTION_FMT :: "ustr \<Rightarrow> ustr \<Rightarrow> ustr" where
  "DESCRIPTION_FMT a b = a @ [32] @ b"

text \<open>Truth values: \<^verbatim>\<open>None\<close>, the empty string, the empty list, the empty dictionary
  and 0 are false; a date is true.\<close>

definition truthy :: "'a list option \<Rightarrow> bool" where
  "truthy x = (case x of None \<Rightarrow> False | Some s \<Rightarrow> s \<noteq> [])"

definition truthy_int :: "int option \<Rightarrow> bool" where
  "truthy_int x = (case x of None \<Rightarrow> False | Some n \<Rightarrow> n \<noteq> 0)"

definition dict_set :: "('k \<times> 'v) list \<Rightarrow> 'k \<Rightarrow> 'v \<Rightarrow> ('k \<times> 'v) list" where
  "dict_set d k v =
     (if map_of d k = None then d @ [(k, v)]
      else map (\<lambda>kv. if fst kv = k then (k, v) else kv) d)"

section \<open>The methods of the class\<close>

text \<open>Each method takes the Article it is called on and returns the Article it
  leaves, or the exception it raises. \<open>row\<close> is the list \<^verbatim>\<open>table.select('tr')\<close>.\<close>

definition extract_article_type :: "settings \<Rightarrow> article \<Rightarrow> node list \<Rightarrow> error + article" where
  "extract_article_type cfg self row =
     and_then (getitem row 0) (\<lambda>r0.
     and_then (getitem (find_all (str_of ''a'') r0) 0) (\<lambda>a0.
       let label = sanitize (strip (text_of a0));
           t1 = get (TYPES cfg) label
       in if \<not> truthy t1 then
            and_then (do_magic label) (\<lambda>label'.
              let t2 = get (TYPES cfg) label'
              in if \<not> truthy t2
                 then Inr (self\<lparr>article_type := TYPES cfg (str_of ''OTHER'')\<rparr>)
                 else Inr (self\<lparr>article_type := t2\<rparr>))
          else Inr (self\<lparr>article_type := t1\<rparr>)))"

definition extract_title ::
  "settings \<Rightarrow> runtime \<Rightarrow> article \<Rightarrow> node list \<Rightarrow> error + article" where
  "extract_title cfg rt self row =
     and_then (extract_article_type cfg self row) (\<lambda>self1.
     and_then (deref (article_type self1)) (\<lambda>t.
       let art_type = capitalize rt (lower rt t) in
       and_then (getitem row 0) (\<lambda>r0.
       and_then (getitem (find_all (str_of ''a'') r0) 1) (\<lambda>a1.
         let desc_text = rstrip_newline (text_of a1);
             s = replace_char 9 [32] (replace_char 10 [32] (DESCRIPTION_FMT art_type desc_text))
         in Inr (self1\<lparr>title := Some (strip (collapse_spaces s))\<rparr>)))))"

fun contact_fields ::
  "runtime \<Rightarrow> ustr \<Rightarrow> (ustr \<times> regex) list \<Rightarrow> (ustr \<times> ustr) list
     \<Rightarrow> error + (ustr \<times> ustr) list" where
  "contact_fields rt paragraph [] c = Inr c"
| "contact_fields rt paragraph ((field, rx) # rest) c =
     (case re_search rx paragraph of
        None \<Rightarrow> contact_fields rt paragraph rest c
      | Some aux \<Rightarrow>
          and_then (deref (aux 1)) (\<lambda>g.
            if strip g \<noteq> []
            then contact_fields rt paragraph rest (dict_set c (lower rt field) (strip g))
            else contact_fields rt paragraph rest c))"

definition build_contact :: "runtime \<Rightarrow> article \<Rightarrow> node list \<Rightarrow> error + article" where
  "build_contact rt self row =
     and_then (getitem row (- 1)) (\<lambda>r.
     and_then (getitem (select (str_of ''p'') r) 0) (\<lambda>p.
     and_then (contact_fields rt (text_of p) CONTACT_REGX []) (\<lambda>c.
       Inr (self\<lparr>contact := Some c\<rparr>))))"

text \<open>\<^verbatim>\<open>row[i].find('td').find('a').attrs['href']\<close>\<close>

definition link_href :: "node list \<Rightarrow> int \<Rightarrow> error + ustr" where
  "link_href row i =
     and_then (getitem row i) (\<lambda>r.
     and_then (deref (find_first (str_of ''td'') r)) (\<lambda>td.
     and_then (deref (find_first (str_of ''a'') td)) (\<lambda>a.
       attr a (str_of ''href''))))"

definition build_documents :: "settings \<Rightarrow> article \<Rightarrow> node list \<Rightarrow> error + article" where
  "build_documents cfg self row =
     (let t1 = (if truthy (article_type self)
                then Some (the (article_type self) @ ANEXA) else None)
      in
      and_then
        (if 2 \<le> length row then
           and_then (getitem row 1) (\<lambda>r1.
           and_then (deref (find_first (str_of ''td'') r1)) (\<lambda>td.
             case sanitize (text_of td) of
               None \<Rightarrow> Inl TypeError
             | Some s \<Rightarrow> Inr (Some (s @ ANEXA))))
         else Inr None) (\<lambda>t2.
      and_then (link_href row 0) (\<lambda>t1_url.
      and_then (link_href row 1) (\<lambda>t2_url.
        let docs = [\<lparr>type = t1, url = MAE_BASE_URL cfg @ t1_url\<rparr>]
        in Inr (self\<lparr>documents :=
                  Some (if truthy t2
                        then docs @ [\<lparr>type = t2, url = MAE_BASE_URL cfg @ t2_url\<rparr>]
                        else docs)\<rparr>)))))"

text \<open>\<^verbatim>\<open>_build_date_from_match\<close> returns \<^verbatim>\<open>None\<close> when the month is not in the
  table (or is 0 there).\<close>

definition build_date_from_match :: "settings \<Rightarrow> groups \<Rightarrow> error + date option" where
  "build_date_from_match cfg m =
     and_then (deref (m 2)) (\<lambda>g2.
       let month = MONTHS cfg (strip g2)
       in if \<not> truthy_int month then Inr None
          else
            and_then (deref (m 3)) (\<lambda>g3.
            and_then (py_int g3) (\<lambda>y.
            and_then (deref (m 1)) (\<lambda>g1.
            and_then (py_int g1) (\<lambda>d.
            and_then (date_new y (the month) d) (\<lambda>dt. Inr (Some dt)))))))"

definition extract_published_at :: "settings \<Rightarrow> article \<Rightarrow> node list \<Rightarrow> error + article" where
  "extract_published_at cfg self row =
     and_then (getitem row (- 1)) (\<lambda>r.
     and_then (getitem (find_all (str_of ''p'') r) (- 1)) (\<lambda>p.
       case re_search DATE_REGX (text_of p) of
         None \<Rightarrow> Inr self
       | Some m \<Rightarrow>
           and_then (build_date_from_match cfg m) (\<lambda>d. Inr (self\<lparr>published_at := d\<rparr>))))"

definition extract_feedback_days :: "settings \<Rightarrow> article \<Rightarrow> node list \<Rightarrow> error + article" where
  "extract_feedback_days cfg self row =
     and_then (getitem row (- 1)) (\<lambda>r.
     and_then (getitem (find_all (str_of ''p'') r) 0) (\<lambda>p.
       let desc_text = text_of p in
       and_then
         (case re_search DATE_REGX desc_text of
            Some m \<Rightarrow> build_date_from_match cfg m
          | None \<Rightarrow>
              (case re_search TIMEDELTA_REGX desc_text of
                 None \<Rightarrow> Inr None
               | Some delta_match \<Rightarrow>
                   and_then (deref (delta_match 2)) (\<lambda>delta.
                   and_then (py_int delta) (\<lambda>n.
                   and_then (timedelta n) (\<lambda>td.
                   and_then (date_add (published_at self) td) (\<lambda>d. Inr (Some d)))))))
         (\<lambda>feedback_date.
            case feedback_date of
              None \<Rightarrow> Inr self
            | Some f \<Rightarrow>
                and_then (days_between f (published_at self)) (\<lambda>n.
                  Inr (self\<lparr>feedback_days := Some n\<rparr>)))))"

definition generate_id :: "runtime \<Rightarrow> article \<Rightarrow> error + article" where
  "generate_id rt self =
     (if truthy (article_type self) \<and> truthy (title self) then
        and_then (utf8_encode (the (title self))) (\<lambda>b.
          Inr (self\<lparr>identifier :=
                  Some (the (article_type self) @ [45] @ md5_hexdigest rt b)\<rparr>))
      else Inr self)"





text \<open>\<^verbatim>\<open>Article(table)\<close>: the constructor, on the class defaults.\<close>

definition init :: "settings \<Rightarrow> runtime \<Rightarrow> node \<Rightarrow> error + article" where
  "init cfg rt table =
     (let tr = select (str_of ''tr'') table in
      and_then (extract_article_type cfg new_article tr) (\<lambda>s1.
      and_then (extract_title cfg rt s1 tr) (\<lambda>s2.
      and_then (build_contact rt s2 tr) (\<lambda>s3.
      and_then (build_documents cfg s3 tr) (\<lambda>s4.
      and_then (extract_published_at cfg s4 tr) (\<lambda>s5.
      and_then (extract_feedback_days cfg s5 tr) (\<lambda>s6.
        generate_id rt s6)))))))"

section \<open>Example inputs\<close>


text \<open>A runtime to run the examples in: the case mappings leave text outside ASCII
  alone, and the digest of a byte string is its hexadecimal dump.\<close>

definition hex_digit :: "nat \<Rightarrow> nat" where
  "hex_digit n = (if n < 10 then 48 + n else 87 + n)"

definition example_runtime :: runtime where
  "example_runtime =
     \<lparr>md5_hexdigest = (\<lambda>b. concat (map (\<lambda>x. [hex_digit (x div 16), hex_digit (x mod 16)]) b)),
      lower_unicode = (\<lambda>s. s), capitalize_unicode = (\<lambda>s. s)\<rparr>"

definition example_settings :: settings where
  "example_settings =
     \<lparr>TYPES = [str_of ''HG'' \<mapsto> str_of ''HG'', str_of ''OTHER'' \<mapsto> str_of ''OTHER''],
      MONTHS = [str_of ''ianuarie'' \<mapsto> 1, str_of ''februarie'' \<mapsto> 2],
      MAE_BASE_URL = str_of ''http://mae.ro'',
      MANDATORY_FIELDS = [str_of ''article_type'', str_of ''title'']\<rparr>"

definition tag :: "string \<Rightarrow> node list \<Rightarrow> node" where
  "tag n cs = Tag (str_of n) [] cs"

definition link :: "string \<Rightarrow> string \<Rightarrow> node" where
  "link h t = Tag (str_of ''a'') [(str_of ''href'', str_of h)] [Text (str_of t)]"

definition para :: "string \<Rightarrow> node" where
  "para t = Tag (str_of ''p'') [] [Text (str_of t)]"

text \<open>The groups a pattern sets in every match.\<close>

fun sure :: "regex \<Rightarrow> nat set" where
  "sure Eps = {}"
| "sure (Cls as) = {}"
| "sure (Seq a b) = sure a \<union> sure b"
| "sure (Alt a b) = sure a \<inter> sure b"
| "sure (Star a) = {}"
| "sure (Lazy a) = {}"
| "sure (Opt a) = {}"
| "sure (Grp i a) = insert i (sure a)"

text \<open>The first capture group of the first match, trimmed; nothing when the pattern
  does not match or the trimmed capture is empty.\<close>

definition capture1 :: "regex \<Rightarrow> ustr \<Rightarrow> ustr option" where
  "capture1 rx paragraph =
     (case re_search rx paragraph of
        None \<Rightarrow> None
      | Some m \<Rightarrow>
          (case m 1 of
             None \<Rightarrow> None
           | Some g \<Rightarrow> if strip g \<noteq> [] then Some (strip g) else None))"

definition stored :: "ustr \<Rightarrow> (ustr \<times> regex) \<Rightarrow> (ustr \<times> ustr) option" where
  "stored paragraph kr = map_option (Pair (fst kr)) (capture1 (snd kr) paragraph)"

text \<open>A row with two links and two paragraphs; only the email pattern matches the first
  paragraph.\<close>

definition email_row :: node where
  "email_row =
     tag ''tr'' [tag ''td'' [link ''/d1.pdf'' ''HG'', link ''/d1.pdf'' ''privind ceva'',
       para ''Propuneri la dce@mae.ro timp de 10 zile'',
       para ''Publicat 15 ianuarie 2020'']]"

text \<open>A table of one row; settings without the fallback entry OTHER, and a table whose
  label is in no table.\<close>

definition one_row_table :: node where
  "one_row_table = tag ''table'' [email_row]"

definition bare_settings :: settings where
  "bare_settings = example_settings\<lparr>TYPES := [str_of ''HG'' \<mapsto> str_of ''HG'']\<rparr>"

definition unknown_type_table :: node where
  "unknown_type_table =
     tag ''table''
       [tag ''tr'' [tag ''td'' [link ''/d1.pdf'' ''Lege'', link ''/d1.pdf'' ''privind ceva'',
          para ''Propuneri la dce@mae.ro'', para ''Publicat 15 ianuarie 2020'']]]"

text \<open>A code point is in a character class.\<close>

definition cls_ok :: "atom list \<Rightarrow> nat \<Rightarrow> bool" where
  "cls_ok as x = list_ex (\<lambda>a. atom_ok a x) as"

text \<open>Group \<open>i\<close> of the first match of a pattern in a text.\<close>

definition group_text :: "regex \<Rightarrow> ustr \<Rightarrow> nat \<Rightarrow> ustr option" where
  "group_text rx s i = (case re_search rx s of None \<Rightarrow> None | Some m \<Rightarrow> m i)"






text \<open>Tables of two rows: the links in the first, a note with its link and two
  paragraphs in the second; and the Article the constructor builds from such a table
  published on 2020-01-15 (ordinal 737439).\<close>

definition head_row :: node where
  "head_row = tag ''tr'' [tag ''td'' [link ''/d1.pdf'' ''HG'', link ''/d1.pdf'' ''privind ceva'']]"

definition notice_row :: "string \<Rightarrow> string \<Rightarrow> node" where
  "notice_row a b =
     tag ''tr'' [tag ''td'' [link ''/d2.pdf'' ''Nota'', para a, para b]]"

definition notice_table :: "string \<Rightarrow> string \<Rightarrow> node" where
  "notice_table a b = tag ''table'' [head_row, notice_row a b]"

definition early_deadline_table :: node where
  "early_deadline_table =
     notice_table ''Propuneri pana la 10 ianuarie 2020'' ''Publicat 15 ianuarie 2020''"

definition deadline_table :: node where
  "deadline_table =
     notice_table ''Propuneri pana la 20 ianuarie 2020'' ''Publicat 15 ianuarie 2020''"

definition undated_table :: node where
  "undated_table = notice_table ''Propuneri timp de 10 zile'' ''Publicat recent''"


definition notice_article :: "string \<Rightarrow> int \<Rightarrow> article" where
  "notice_article x n =
     new_article
       \<lparr>article_type := Some (str_of ''HG''),
        title := Some (str_of ''Hg privind ceva''),
        contact := Some [],
        documents := Some
          [\<lparr>type = Some (str_of ''HG - ANEXA''), url = str_of ''http://mae.ro/d1.pdf''\<rparr>,
           \<lparr>type = Some (str_of (''Nota'' @ x @ ''Publicat 15 ianuarie 2020 - ANEXA'')),
            url = str_of ''http://mae.ro/d2.pdf''\<rparr>],
        published_at := Some (Date 737439),
        feedback_days := Some n,
        identifier := Some (str_of ''HG-48672070726976696e642063657661'')\<rparr>"

section \<open>Basic facts\<close>

declare bytes_replace.simps [simp del]
declare utf8_decode.simps [simp del]

lemma and_then_Inl [simp]: "and_then (Inl e) f = Inl e"
  by (simp add: and_then_def)

lemma and_then_Inr [simp]: "and_then (Inr v) f = f v"
  by (simp add: and_then_def)

lemma and_then_eq_Inr: "and_then r f = Inr y \<longleftrightarrow> (\<exists>v. r = Inr v \<and> f v = Inr y)"
  by (cases r) simp_all

section \<open>Validity\<close>





section \<open>The identifier\<close>








section \<open>Facts about the matcher\<close>

lemma iter_greedy_inv:
  assumes step: "\<And>x y. y \<in> set (f x) \<Longrightarrow> Q x \<Longrightarrow> Q y"
  shows "Q st \<Longrightarrow> st' \<in> set (iter_greedy f n st) \<Longrightarrow> Q st'"
proof (induction n arbitrary: st)
  case 0
  then show ?case by simp
next
  case (Suc n)
  from Suc.prems(2) consider "st' = st"
    | x where "x \<in> set (f st)" "st' \<in> set (iter_greedy f n x)"
    by auto
  then show ?case
  proof cases
    case 1
    with Suc.prems(1) show ?thesis by simp
  next
    case 2
    from step [OF 2(1) Suc.prems(1)] have "Q x" .
    from Suc.IH [OF this 2(2)] show ?thesis .
  qed
qed

lemma iter_lazy_inv:
  assumes step: "\<And>x y. y \<in> set (f x) \<Longrightarrow> Q x \<Longrightarrow> Q y"
  shows "Q st \<Longrightarrow> st' \<in> set (iter_lazy f n st) \<Longrightarrow> Q st'"
proof (induction n arbitrary: st)
  case 0
  then show ?case by simp
next
  case (Suc n)
  from Suc.prems(2) consider "st' = st"
    | x where "x \<in> set (f st)" "st' \<in> set (iter_lazy f n x)"
    by auto
  then show ?case
  proof cases
    case 1
    with Suc.prems(1) show ?thesis by simp
  next
    case 2
    from step [OF 2(1) Suc.prems(1)] have "Q x" .
    from Suc.IH [OF this 2(2)] show ?thesis .
  qed
qed

lemma matches_keeps:
  "st' \<in> set (matches r st) \<Longrightarrow> snd st i \<noteq> None \<Longrightarrow> snd st' i \<noteq> None"
proof (induction r arbitrary: st st')
  case (Star r)
  show ?case
    by (rule iter_greedy_inv [where Q = "\<lambda>x. snd x i \<noteq> None" and f = "\<lambda>x. matches r x"
          and n = "length (fst st)" and st = st])
       (use Star in auto)
next
  case (Lazy r)
  show ?case
    by (rule iter_lazy_inv [where Q = "\<lambda>x. snd x i \<noteq> None" and f = "\<lambda>x. matches r x"
          and n = "length (fst st)" and st = st])
       (use Lazy in auto)
qed (auto simp: capture_def split: list.splits if_splits)

lemma matches_sure:
  "st' \<in> set (matches r st) \<Longrightarrow> i \<in> sure r \<Longrightarrow> snd st' i \<noteq> None"
proof (induction r arbitrary: st st')
  case (Seq a b)
  from Seq.prems(1) obtain x where x: "x \<in> set (matches a st)" and st': "st' \<in> set (matches b x)"
    by auto
  from Seq.prems(2) consider "i \<in> sure a" | "i \<in> sure b" by auto
  then show ?case
  proof cases
    case 1
    from Seq.IH(1) [OF x 1] have "snd x i \<noteq> None" .
    from matches_keeps [OF st' this] show ?thesis .
  next
    case 2
    from Seq.IH(2) [OF st' 2] show ?thesis .
  qed
next
  case (Grp j a)
  from Grp.prems(1) obtain x where x: "x \<in> set (matches a st)"
    and st': "st' = capture j (fst st) x" by auto
  show ?case
  proof (cases "i = j")
    case True
    with st' show ?thesis by (simp add: capture_def)
  next
    case False
    with Grp.prems(2) have "i \<in> sure a" by simp
    from Grp.IH [OF x this] st' False show ?thesis by (simp add: capture_def)
  qed
qed auto

lemma matches_suffix:
  "st' \<in> set (matches r st) \<Longrightarrow> \<exists>w. fst st = w @ fst st'"
proof (induction r arbitrary: st st')
  case (Star r)
  show ?case
    by (rule iter_greedy_inv [where Q = "\<lambda>x. \<exists>w. fst st = w @ fst x" and f = "\<lambda>x. matches r x"
          and n = "length (fst st)" and st = st])
       (use Star in \<open>auto, metis append.assoc\<close>)
next
  case (Lazy r)
  show ?case
    by (rule iter_lazy_inv [where Q = "\<lambda>x. \<exists>w. fst st = w @ fst x" and f = "\<lambda>x. matches r x"
          and n = "length (fst st)" and st = st])
       (use Lazy in \<open>auto, metis append.assoc\<close>)
next
  case (Seq a b)
  then show ?case by (auto, metis append.assoc)
next
  case (Cls as)
  then show ?case by (cases "fst st") (auto split: if_splits)
next
  case (Grp j a)
  from Grp.prems(1) obtain x where x: "x \<in> set (matches a st)"
    and st': "st' = capture j (fst st) x" by auto
  from Grp.IH [OF x] st' show ?case by (simp add: capture_def)
qed auto

lemma search_from_Some:
  "search_from r s = Some m \<Longrightarrow> \<exists>t st. st \<in> set (matches r (t, Map.empty)) \<and> m = snd st"
proof (induction s)
  case Nil
  show ?case
  proof (cases "matches r ([], Map.empty)")
    case Nil
    with Nil.prems show ?thesis by simp
  next
    case (Cons st sts)
    with Nil.prems have "m = snd st" by simp
    moreover from Cons have "st \<in> set (matches r ([], Map.empty))" by simp
    ultimately show ?thesis by blast
  qed
next
  case (Cons x s)
  show ?case
  proof (cases "matches r (x # s, Map.empty)")
    case Nil
    with Cons show ?thesis by simp
  next
    case (Cons st sts)
    with Cons.prems have "m = snd st" by simp
    moreover from Cons have "st \<in> set (matches r (x # s, Map.empty))" by simp
    ultimately show ?thesis by blast
  qed
qed

lemma re_search_sure:
  assumes "re_search r s = Some m" and "i \<in> sure r"
  shows "\<exists>g. m i = Some g"
proof -
  from assms(1) obtain t st where st: "st \<in> set (matches (Grp 0 r) (t, Map.empty))" and m: "m = snd st"
    unfolding re_search_def by (blast dest: search_from_Some)
  from assms(2) have "i \<in> sure (Grp 0 r)" by simp
  from matches_sure [OF st this] m show ?thesis by auto
qed


section \<open>Evaluating the examples\<close>

lemmas rx_defs = re_search_def DATE_REGX_def TIMEDELTA_REGX_def seqs_def some_def digit_def
  space_def alpha_def chr_def capture_def consumed_def is_decimal_def decimal_value_def
  is_space_def str_of_def EMAIL_REGX_def TEL_REGX_def FAX_REGX_def ADDR_REGX_def
  number_groups_def

lemmas dom_defs = select_def find_all_def find_first_def tag_def link_def para_def
  getitem_def deref_def attr_def

section \<open>The contact\<close>

lemma dict_set_new: "map_of d k = None \<Longrightarrow> dict_set d k v = d @ [(k, v)]"
  by (simp add: dict_set_def)

lemma contact_fields_spec:
  assumes "list_all (\<lambda>kr. 1 \<in> sure (snd kr) \<and> lower rt (fst kr) = fst kr) rxs"
    and "distinct (map fst rxs)"
    and "list_all (\<lambda>kr. map_of c (fst kr) = None) rxs"
  shows "contact_fields rt p rxs c = Inr (c @ List.map_filter (stored p) rxs)"
  using assms
proof (induction rxs arbitrary: c)
  case Nil
  then show ?case by (simp add: List.map_filter_simps)
next
  case (Cons kr rxs)
  obtain k rx where kr: "kr = (k, rx)" by (cases kr)
  from Cons.prems kr have sure: "1 \<in> sure rx" and low: "lower rt k = k"
    and fresh: "map_of c k = None" by simp_all
  from Cons.prems have rest: "list_all (\<lambda>kr. 1 \<in> sure (snd kr) \<and> lower rt (fst kr) = fst kr) rxs"
    "distinct (map fst rxs)" "list_all (\<lambda>kr. map_of c (fst kr) = None) rxs"
    by simp_all
  from Cons.prems kr have knew: "list_all (\<lambda>kr. fst kr \<noteq> k) rxs"
    by (auto simp: list_all_iff)
  show ?case
  proof (cases "re_search rx p")
    case None
    then have "stored p kr = None" by (simp add: stored_def capture1_def kr)
    with None kr Cons.IH [OF rest] show ?thesis by (simp add: List.map_filter_simps)
  next
    case (Some m)
    from re_search_sure [OF Some sure] obtain g where g: "m 1 = Some g" by blast
    show ?thesis
    proof (cases "strip g = []")
      case True
      with Some g have "stored p kr = None" by (simp add: stored_def capture1_def kr)
      with Some g True kr Cons.IH [OF rest] show ?thesis
        by (simp add: List.map_filter_simps deref_def)
    next
      case False
      with Some g have st: "stored p kr = Some (k, strip g)"
        by (simp add: stored_def capture1_def kr)
      have fresh': "list_all (\<lambda>kr. map_of (c @ [(k, strip g)]) (fst kr) = None) rxs"
        using rest(3) knew by (auto simp: list_all_iff map_add_def split: option.splits)
      from Cons.IH [OF rest(1,2) fresh'] Some g False kr st low fresh show ?thesis
        by (simp add: List.map_filter_simps deref_def dict_set_new)
    qed
  qed
qed

lemma sure_seqs: "sure (seqs rs) = (\<Union>r \<in> set rs. sure r)"
  by (induction rs) (simp_all add: seqs_def)

lemma contact_regx_ok:
  "list_all (\<lambda>kr. 1 \<in> sure (snd kr) \<and> lower rt (fst kr) = fst kr) CONTACT_REGX"
  by (simp add: CONTACT_REGX_def EMAIL_REGX_def TEL_REGX_def FAX_REGX_def ADDR_REGX_def
        number_groups_def sure_seqs lower_def is_ascii_def ascii_lower_def str_of_def)

lemma contact_regx_keys: "distinct (map fst CONTACT_REGX)"
  by (simp add: CONTACT_REGX_def str_of_def)

lemma build_contact_eq:
  assumes "getitem row (- 1) = Inr r" and "select (str_of ''p'') r = p # ps"
  shows "build_contact rt self row
           = Inr (self\<lparr>contact := Some (List.map_filter (stored (text_of p)) CONTACT_REGX)\<rparr>)"
proof -
  have "contact_fields rt (text_of p) CONTACT_REGX []
          = Inr ([] @ List.map_filter (stored (text_of p)) CONTACT_REGX)"
    by (rule contact_fields_spec [OF contact_regx_ok contact_regx_keys]) (simp add: list_all_iff)
  with assms show ?thesis
    by (simp add: build_contact_def getitem_def)
qed


lemma email_row_paragraphs:
  "select (str_of ''p'') email_row
     = [para ''Propuneri la dce@mae.ro timp de 10 zile'', para ''Publicat 15 ianuarie 2020'']"
  by (simp add: email_row_def dom_defs str_of_def)

lemma email_row_captures:
  "capture1 EMAIL_REGX (str_of ''Propuneri la dce@mae.ro timp de 10 zile'')
     = Some (str_of ''dce@mae.ro'')"
  "capture1 TEL_REGX (str_of ''Propuneri la dce@mae.ro timp de 10 zile'') = None"
  "capture1 FAX_REGX (str_of ''Propuneri la dce@mae.ro timp de 10 zile'') = None"
  "capture1 ADDR_REGX (str_of ''Propuneri la dce@mae.ro timp de 10 zile'') = None"
  by (simp_all add: capture1_def rx_defs strip_def lstrip_def rstrip_def)


section \<open>The documents\<close>

lemmas str_defs = strip_def lstrip_def rstrip_def rstrip_newline_def replace_char_def
  sanitize_def do_magic_def lower_def capitalize_def is_ascii_def ascii_lower_def
  ascii_upper_def truthy_def truthy_int_def get_def ANEXA_def DESCRIPTION_FMT_def
  is_space_def

lemma second_type_truthy:
  assumes "2 \<le> length row"
    and "(if 2 \<le> length row then
           and_then (getitem row 1) (\<lambda>r1.
           and_then (deref (find_first (str_of ''td'') r1)) (\<lambda>td.
             case sanitize (text_of td) of
               None \<Rightarrow> Inl TypeError
             | Some s \<Rightarrow> Inr (Some (s @ ANEXA))))
         else Inr None) = Inr t2"
  shows "\<exists>s. t2 = Some (s @ ANEXA)"
  using assms by (auto simp: and_then_eq_Inr split: option.splits)

lemma build_documents_two_entries:
  assumes "build_documents cfg self row = Inr a"
  shows "2 \<le> length row \<and>
         (\<exists>h0 h1 t1 t2. link_href row 0 = Inr h0 \<and> link_href row 1 = Inr h1 \<and>
            documents a = Some [\<lparr>type = t1, url = MAE_BASE_URL cfg @ h0\<rparr>,
                                \<lparr>type = Some t2, url = MAE_BASE_URL cfg @ h1\<rparr>])"
proof -
  from assms obtain t2 h0 h1 where
    t2: "(if 2 \<le> length row then
           and_then (getitem row 1) (\<lambda>r1.
           and_then (deref (find_first (str_of ''td'') r1)) (\<lambda>td.
             case sanitize (text_of td) of
               None \<Rightarrow> Inl TypeError
             | Some s \<Rightarrow> Inr (Some (s @ ANEXA))))
         else Inr None) = Inr t2"
    and h0: "link_href row 0 = Inr h0" and h1: "link_href row 1 = Inr h1"
    and a: "a = self\<lparr>documents :=
              Some (if truthy t2
                    then [\<lparr>type = (if truthy (article_type self)
                                      then Some (the (article_type self) @ ANEXA) else None),
                            url = MAE_BASE_URL cfg @ h0\<rparr>]
                         @ [\<lparr>type = t2, url = MAE_BASE_URL cfg @ h1\<rparr>]
                    else [\<lparr>type = (if truthy (article_type self)
                                      then Some (the (article_type self) @ ANEXA) else None),
                            url = MAE_BASE_URL cfg @ h0\<rparr>])\<rparr>"
    unfolding build_documents_def Let_def and_then_eq_Inr by blast
  have len: "2 \<le> length row"
  proof (rule ccontr)
    assume "\<not> 2 \<le> length row"
    then have "link_href row 1 = Inl IndexError"
      by (simp add: link_href_def getitem_def)
    with h1 show False by simp
  qed
  from second_type_truthy [OF len t2] obtain s where s: "t2 = Some (s @ ANEXA)" by blast
  then have "truthy t2" by (simp add: truthy_def ANEXA_def str_of_def)
  with a s have "documents a = Some [\<lparr>type = (if truthy (article_type self)
                                      then Some (the (article_type self) @ ANEXA) else None),
                            url = MAE_BASE_URL cfg @ h0\<rparr>,
                          \<lparr>type = Some (s @ ANEXA), url = MAE_BASE_URL cfg @ h1\<rparr>]"
    by simp
  with len h0 h1 show ?thesis by blast
qed

lemma build_documents_well_formed:
  assumes "2 \<le> length row"
    and "link_href row 0 = Inr h0" and "link_href row 1 = Inr h1"
    and "find_first (str_of ''td'') (row ! 1) = Some td" and "text_of td \<noteq> []"
  shows "build_documents cfg self row =
           Inr (self\<lparr>documents :=
                  Some [\<lparr>type = (if truthy (article_type self)
                                  then Some (the (article_type self) @ ANEXA) else None),
                         url = MAE_BASE_URL cfg @ h0\<rparr>,
                        \<lparr>type = Some (the (sanitize (text_of td)) @ ANEXA),
                         url = MAE_BASE_URL cfg @ h1\<rparr>]\<rparr>)"
proof -
  from assms(1) have "getitem row 1 = Inr (row ! 1)"
    by (simp add: getitem_def)
  with assms show ?thesis
    by (simp add: build_documents_def Let_def deref_def sanitize_def truthy_def ANEXA_def
          str_of_def)
qed

lemma build_documents_one_row:
  assumes "length row = 1" and "link_href row 0 = Inr h"
  shows "build_documents cfg self row = Inl IndexError"
proof -
  from assms(1) have "link_href row 1 = Inl IndexError"
    by (simp add: link_href_def getitem_def)
  with assms show ?thesis
    by (simp add: build_documents_def Let_def)
qed

lemma one_row_rows: "select (str_of ''tr'') one_row_table = [email_row]"
  by (simp add: one_row_table_def email_row_def dom_defs str_of_def)

lemma email_row_type:
  "extract_article_type example_settings self [email_row]
     = Inr (self\<lparr>article_type := Some (str_of ''HG'')\<rparr>)"
  by (simp add: extract_article_type_def example_settings_def email_row_def dom_defs str_defs
        str_of_def)

lemma email_row_title:
  "extract_title example_settings example_runtime self [email_row]
     = Inr (self\<lparr>article_type := Some (str_of ''HG''),
                 title := Some (str_of ''Hg privind ceva'')\<rparr>)"
  unfolding extract_title_def email_row_type
  by (simp add: email_row_def dom_defs str_defs str_of_def example_runtime_def)

lemma email_row_contact:
  "build_contact example_runtime self [email_row]
     = Inr (self\<lparr>contact := Some [(str_of ''email'', str_of ''dce@mae.ro'')]\<rparr>)"
proof -
  have g: "getitem [email_row] (- 1) = Inr email_row"
    by (simp add: getitem_def)
  have tx: "text_of (para ''Propuneri la dce@mae.ro timp de 10 zile'')
              = str_of ''Propuneri la dce@mae.ro timp de 10 zile''"
    by (simp add: para_def)
  show ?thesis
    unfolding build_contact_eq [OF g email_row_paragraphs] tx
    by (simp add: CONTACT_REGX_def List.map_filter_simps stored_def email_row_captures)
qed

lemma email_row_href: "link_href [email_row] 0 = Inr (str_of ''/d1.pdf'')"
  by (simp add: link_href_def email_row_def dom_defs str_of_def)

text \<open>
  C1 asks for one document from a one-row row-group. \<^verbatim>\<open>_build_documents\<close> guards the
  type of the second document with \<^verbatim>\<open>len(row) >= 2\<close> but reads \<^verbatim>\<open>row[1]\<close> for its URL
  without the guard: on a row-group of one well-formed row the constructor raises
  IndexError (\<open>build_documents_one_row\<close>), and whenever the method returns, the
  documents are two, each URL the base URL followed by the link's href
  (\<open>build_documents_two_entries\<close>, \<open>build_documents_well_formed\<close>).
\<close>

theorem one_row_group_raises:
  "init example_settings example_runtime one_row_table = Inl IndexError"
  by (simp add: init_def one_row_rows email_row_type email_row_title email_row_contact
        build_documents_one_row [OF _ email_row_href])

section \<open>The title\<close>

lemma extract_title_without_type:
  assumes "extract_article_type cfg self row = Inr s1" and "article_type s1 = None"
  shows "extract_title cfg rt self row = Inl AttributeError"
  using assms by (simp add: extract_title_def deref_def)

lemma unknown_type_rows:
  "select (str_of ''tr'') unknown_type_table
     = [tag ''tr'' [tag ''td'' [link ''/d1.pdf'' ''Lege'', link ''/d1.pdf'' ''privind ceva'',
          para ''Propuneri la dce@mae.ro'', para ''Publicat 15 ianuarie 2020'']]]"
  by (simp add: unknown_type_table_def dom_defs str_of_def)

lemma magic_Lege: "do_magic (Some (str_of ''Lege'')) = Inr (Some (str_of ''Lege''))"
  by (simp add: do_magic_def str_of_def encode_cp_def bytes_replace.simps utf8_decode.simps
        decode_cp_def)

lemma unknown_type_none:
  "extract_article_type bare_settings self (select (str_of ''tr'') unknown_type_table)
     = Inr (self\<lparr>article_type := None\<rparr>)"
  unfolding unknown_type_rows
  by (simp add: extract_article_type_def bare_settings_def example_settings_def dom_defs
        strip_def lstrip_def rstrip_def sanitize_def replace_char_def is_space_def
        truthy_def get_def magic_Lege [unfolded str_of_def, simplified] str_of_def)

text \<open>
  C2 asks for a degraded title when the type lookup yields no code. The label
  \<^verbatim>\<open>Lege\<close> is in no table and the settings have no OTHER entry, so the type is
  \<^verbatim>\<open>None\<close>; \<^verbatim>\<open>_extract_title\<close> calls \<^verbatim>\<open>.lower()\<close> on it and raises AttributeError
  (\<open>extract_title_without_type\<close> for every such row-group).
\<close>

theorem title_without_type_raises:
  "extract_article_type bare_settings new_article (select (str_of ''tr'') unknown_type_table)
     = Inr new_article
   \<and> extract_title bare_settings example_runtime new_article
        (select (str_of ''tr'') unknown_type_table) = Inl AttributeError
   \<and> init bare_settings example_runtime unknown_type_table = Inl AttributeError"
  by (simp add: init_def unknown_type_none extract_title_def deref_def new_article_def)

section \<open>What the groups of the date patterns hold\<close>

lemma cls_word:
  assumes "st' \<in> set (matches (Cls as) st)"
  shows "\<exists>x. fst st = x # fst st' \<and> cls_ok as x \<and> snd st' = snd st"
  using assms by (cases "fst st") (auto simp: cls_ok_def split: if_splits)

lemma grp_mid:
  assumes "st' \<in> set (matches (Grp i r) st)"
  shows "\<exists>x. x \<in> set (matches r st) \<and> st' = capture i (fst st) x"
  using assms by auto

lemma seq_mid:
  assumes "st' \<in> set (matches (Seq a b) st)"
  shows "\<exists>x. x \<in> set (matches a st) \<and> st' \<in> set (matches b x)"
  using assms by auto

lemma eps_mid: "st' \<in> set (matches Eps st) \<Longrightarrow> st' = st"
  by simp

lemma star_iter:
  "st' \<in> set (matches (Star r) st)
     \<Longrightarrow> st' \<in> set (iter_greedy (\<lambda>x. matches r x) (length (fst st)) st)"
  by simp

declare matches.simps [simp del]

lemma star_word:
  assumes "st' \<in> set (matches (Star (Cls as)) st)"
  shows "\<exists>w. fst st = w @ fst st' \<and> list_all (cls_ok as) w \<and> snd st' = snd st"
proof -
  have "st' \<in> set (iter_greedy (\<lambda>x. matches (Cls as) x) (length (fst st)) st)"
    using assms by (rule star_iter)
  then show ?thesis
  proof (rule iter_greedy_inv [where Q = "\<lambda>y. \<exists>w. fst st = w @ fst y \<and> list_all (cls_ok as) w
                \<and> snd y = snd st", rotated 2])
    fix x y
    assume y: "y \<in> set (matches (Cls as) x)"
      and "\<exists>w. fst st = w @ fst x \<and> list_all (cls_ok as) w \<and> snd x = snd st"
    then obtain w where w: "fst st = w @ fst x" "list_all (cls_ok as) w" "snd x = snd st"
      by blast
    from cls_word [OF y] obtain c where c: "fst x = c # fst y" "cls_ok as c" "snd y = snd x"
      by blast
    from w c have "fst st = (w @ [c]) @ fst y \<and> list_all (cls_ok as) (w @ [c])
        \<and> snd y = snd st" by simp
    then show "\<exists>w. fst st = w @ fst y \<and> list_all (cls_ok as) w \<and> snd y = snd st"
      by blast
  next
    show "\<exists>w. fst st = w @ fst st \<and> list_all (cls_ok as) w \<and> snd st = snd st"
      by (rule exI [of _ "[]"]) simp
  qed
qed

lemma some_word:
  assumes "st' \<in> set (matches (some (Cls as)) st)"
  shows "\<exists>w. fst st = w @ fst st' \<and> w \<noteq> [] \<and> list_all (cls_ok as) w \<and> snd st' = snd st"
proof -
  from assms obtain x where x: "x \<in> set (matches (Cls as) st)"
    and st': "st' \<in> set (matches (Star (Cls as)) x)"
    unfolding some_def by (blast dest: seq_mid)
  from cls_word [OF x] obtain c where c: "fst st = c # fst x" "cls_ok as c" "snd x = snd st"
    by blast
  from star_word [OF st'] obtain w where
    w: "fst x = w @ fst st'" "list_all (cls_ok as) w" "snd st' = snd x" by blast
  from c w have "fst st = (c # w) @ fst st' \<and> c # w \<noteq> [] \<and> list_all (cls_ok as) (c # w)
      \<and> snd st' = snd st" by simp
  then show ?thesis by blast
qed

lemma grp_value:
  assumes "st' \<in> set (matches (Grp i r) st)"
  shows "\<exists>x w. x \<in> set (matches r st) \<and> fst st = w @ fst x \<and> fst st' = fst x
           \<and> snd st' = (snd x)(i \<mapsto> w)"
proof -
  from assms obtain x where x: "x \<in> set (matches r st)" and st': "st' = capture i (fst st) x"
    by (blast dest: grp_mid)
  from matches_suffix [OF x] obtain w where w: "fst st = w @ fst x" by blast
  with st' have "fst st' = fst x \<and> snd st' = (snd x)(i \<mapsto> w)"
    by (simp add: capture_def)
  with x w show ?thesis by blast
qed

lemma four_digits:
  assumes "st' \<in> set (matches (seqs [digit, digit, digit, digit]) st)"
  shows "\<exists>w. fst st = w @ fst st' \<and> length w = 4 \<and> list_all is_decimal w \<and> snd st' = snd st"
proof -
  have unf: "seqs [digit, digit, digit, digit]
      = Seq (Cls [Digit]) (Seq (Cls [Digit]) (Seq (Cls [Digit]) (Seq (Cls [Digit]) Eps)))"
    by (simp add: seqs_def digit_def)
  from assms obtain a b c d where
    a: "a \<in> set (matches (Cls [Digit]) st)" and b: "b \<in> set (matches (Cls [Digit]) a)"
    and c: "c \<in> set (matches (Cls [Digit]) b)" and d: "d \<in> set (matches (Cls [Digit]) c)"
    and e: "st' = d"
    unfolding unf by (blast dest: seq_mid eps_mid)
  from cls_word [OF a] cls_word [OF b] cls_word [OF c] cls_word [OF d] e
  obtain x1 x2 x3 x4 where "fst st = [x1, x2, x3, x4] @ fst st'"
    "is_decimal x1" "is_decimal x2" "is_decimal x3" "is_decimal x4" "snd st' = snd st"
    by (auto simp: cls_ok_def)
  then have "fst st = [x1, x2, x3, x4] @ fst st' \<and> length [x1, x2, x3, x4] = 4
      \<and> list_all is_decimal [x1, x2, x3, x4] \<and> snd st' = snd st" by simp
  then show ?thesis by blast
qed

lemma date_groups:
  assumes "re_search DATE_REGX s = Some m"
  shows "\<exists>g1 g2 g3. m 1 = Some g1 \<and> m 2 = Some g2 \<and> m 3 = Some g3
           \<and> g1 \<noteq> [] \<and> list_all is_decimal g1
           \<and> list_all (cls_ok [Range 97 122, Range 65 90]) g2
           \<and> length g3 = 4 \<and> list_all is_decimal g3"
proof -
  from assms obtain t st where st: "st \<in> set (matches (Grp 0 DATE_REGX) (t, Map.empty))"
    and m: "m = snd st"
    unfolding re_search_def by (blast dest: search_from_Some)
  from grp_value [OF st] obtain x w0 where
    x: "x \<in> set (matches DATE_REGX (t, Map.empty))" and m0: "snd st = (snd x)(0 \<mapsto> w0)"
    by auto
  let ?rest3 = "Seq (Grp 3 (seqs [digit, digit, digit, digit])) Eps"
  let ?rest2 = "Seq (Grp 2 (Star alpha)) (Seq space ?rest3)"
  have unf: "DATE_REGX = Seq (Grp 1 (some digit)) (Seq space ?rest2)"
    by (simp add: DATE_REGX_def seqs_def)
  from x obtain a where a: "a \<in> set (matches (Grp 1 (some digit)) (t, Map.empty))"
    and x1: "x \<in> set (matches (Seq space ?rest2) a)"
    unfolding unf by (blast dest: seq_mid)
  from x1 obtain b where b: "b \<in> set (matches space a)" and x2: "x \<in> set (matches ?rest2 b)"
    by (blast dest: seq_mid)
  from x2 obtain c where c: "c \<in> set (matches (Grp 2 (Star alpha)) b)"
    and x3: "x \<in> set (matches (Seq space ?rest3) c)"
    by (blast dest: seq_mid)
  from x3 obtain d where d: "d \<in> set (matches space c)" and x4: "x \<in> set (matches ?rest3 d)"
    by (blast dest: seq_mid)
  from x4 have e: "x \<in> set (matches (Grp 3 (seqs [digit, digit, digit, digit])) d)"
    by (blast dest: seq_mid eps_mid)
  from grp_value [OF a] obtain a' w1 where
    a': "a' \<in> set (matches (some digit) (t, Map.empty))" "fst (t, Map.empty) = w1 @ fst a'"
    "snd a = (snd a')(1 \<mapsto> w1)" by auto
  from some_word [OF a'(1) [unfolded digit_def]] a'(2) obtain
    w1: "w1 \<noteq> []" "list_all is_decimal w1"
    by (auto simp: cls_ok_def list_all_iff)
  from cls_word [OF b [unfolded space_def]] have sb: "snd b = snd a" by blast
  from grp_value [OF c] obtain c' w2 where
    c': "c' \<in> set (matches (Star alpha) b)" "fst b = w2 @ fst c'"
    "snd c = (snd c')(2 \<mapsto> w2)" by auto
  from star_word [OF c'(1) [unfolded alpha_def]] c'(2) have
    w2: "list_all (cls_ok [Range 97 122, Range 65 90]) w2" and sc': "snd c' = snd b"
    by auto
  from cls_word [OF d [unfolded space_def]] have sd: "snd d = snd c" by blast
  from grp_value [OF e] obtain e' w3 where
    e': "e' \<in> set (matches (seqs [digit, digit, digit, digit]) d)" "fst d = w3 @ fst e'"
    "snd x = (snd e')(3 \<mapsto> w3)" by auto
  from four_digits [OF e'(1)] e'(2) have
    w3: "length w3 = 4" "list_all is_decimal w3" and se': "snd e' = snd d"
    by auto
  from m m0 e'(3) se' sd c'(3) sc' sb a'(3)
  have "m 1 = Some w1 \<and> m 2 = Some w2 \<and> m 3 = Some w3" by simp
  with w1 w2 w3 show ?thesis by blast
qed

lemma lit_word:
  "st' \<in> set (matches (lit w) st) \<Longrightarrow> snd st' = snd st"
proof (induction w arbitrary: st rule: lit.induct)
  case 1
  then show ?case by (auto dest: eps_mid)
next
  case (2 c)
  then show ?case by (auto dest: cls_word)
next
  case (3 c v va)
  from "3.prems" obtain x where x: "x \<in> set (matches (Cls [Chr c]) st)"
    and st': "st' \<in> set (matches (lit (v # va)) x)"
    by (auto dest: seq_mid)
  from cls_word [OF x] "3.IH" [OF st'] show ?case by auto
qed

lemma timedelta_groups:
  assumes "re_search TIMEDELTA_REGX s = Some m"
  shows "\<exists>g. m 2 = Some g \<and> g \<noteq> [] \<and> list_all (\<lambda>c. 48 \<le> c \<and> c \<le> 57) g"
proof -
  from assms obtain t st where st: "st \<in> set (matches (Grp 0 TIMEDELTA_REGX) (t, Map.empty))"
    and m: "m = snd st"
    unfolding re_search_def by (blast dest: search_from_Some)
  from grp_value [OF st] obtain x w0 where
    x: "x \<in> set (matches TIMEDELTA_REGX (t, Map.empty))" and m0: "snd st = (snd x)(0 \<mapsto> w0)"
    by auto
  let ?tail = "Seq space (Seq (lit (str_of ''zile'')) Eps)"
  let ?r3 = "Seq (Grp 2 (some (Cls [Range 48 57]))) ?tail"
  let ?r2 = "Seq (lit (str_of ''de'')) (Seq space ?r3)"
  have unf: "TIMEDELTA_REGX = Grp 1 (Seq (lit (str_of ''timp'')) (Seq space ?r2))"
    by (simp add: TIMEDELTA_REGX_def seqs_def)
  from grp_value [OF x [unfolded unf]] obtain y w1 where
    y: "y \<in> set (matches (Seq (lit (str_of ''timp'')) (Seq space ?r2)) (t, Map.empty))"
    and m1: "snd x = (snd y)(1 \<mapsto> w1)" by auto
  from y obtain a where a: "a \<in> set (matches (lit (str_of ''timp'')) (t, Map.empty))"
    and y1: "y \<in> set (matches (Seq space ?r2) a)" by (blast dest: seq_mid)
  from y1 obtain b where b: "b \<in> set (matches space a)" and y2: "y \<in> set (matches ?r2 b)"
    by (blast dest: seq_mid)
  from y2 obtain c where c: "c \<in> set (matches (lit (str_of ''de'')) b)"
    and y3: "y \<in> set (matches (Seq space ?r3) c)" by (blast dest: seq_mid)
  from y3 obtain d where d: "d \<in> set (matches space c)" and y4: "y \<in> set (matches ?r3 d)"
    by (blast dest: seq_mid)
  from y4 obtain e where e: "e \<in> set (matches (Grp 2 (some (Cls [Range 48 57]))) d)"
    and y5: "y \<in> set (matches ?tail e)" by (blast dest: seq_mid)
  from y5 obtain f where f: "f \<in> set (matches space e)"
    and y6: "y \<in> set (matches (Seq (lit (str_of ''zile'')) Eps) f)" by (blast dest: seq_mid)
  from y6 have y7: "y \<in> set (matches (lit (str_of ''zile'')) f)"
    by (blast dest: seq_mid eps_mid)
  from grp_value [OF e] obtain e' w2 where
    e': "e' \<in> set (matches (some (Cls [Range 48 57])) d)" "fst d = w2 @ fst e'"
    "snd e = (snd e')(2 \<mapsto> w2)" by auto
  from some_word [OF e'(1)] e'(2) have
    w2: "w2 \<noteq> []" "list_all (\<lambda>c. 48 \<le> c \<and> c \<le> 57) w2"
    by (auto simp: cls_ok_def list_all_iff)
  from cls_word [OF f [unfolded space_def]] have sf: "snd f = snd e" by blast
  from lit_word [OF y7] have sy: "snd y = snd f" .
  from m m0 m1 sy sf e'(3) have "m 2 = Some w2" by simp
  with w2 show ?thesis by blast
qed

lemmas rx_eval = rx_defs matches.simps

section \<open>Digits, \<^verbatim>\<open>int\<close> and the date of a match\<close>

lemma decimal_ge_48: "is_decimal c \<Longrightarrow> 48 \<le> c"
  by (auto simp: is_decimal_def decimal_value_def split: if_splits)

lemma space_cases:
  "is_space c \<Longrightarrow> c \<le> 32 \<or> c = 0x85 \<or> c = 0xA0 \<or> c = 0x1680
     \<or> (0x2000 \<le> c \<and> c \<le> 0x3000)"
  by (auto simp: is_space_def)

lemma decimal_not_space: "is_decimal c \<Longrightarrow> \<not> is_space c"
proof
  assume d: "is_decimal c" and s: "is_space c"
  from decimal_ge_48 [OF d] space_cases [OF s]
  consider "c = 0x85" | "c = 0xA0" | "c = 0x1680" | "0x2000 \<le> c \<and> c \<le> 0x3000"
    by linarith
  then show False
  proof cases
    case 1
    with d show ?thesis by (simp add: is_decimal_def decimal_value_def)
  next
    case 2
    with d show ?thesis by (simp add: is_decimal_def decimal_value_def)
  next
    case 3
    with d show ?thesis by (simp add: is_decimal_def decimal_value_def nd_blocks_def)
  next
    case 4
    with d show ?thesis by (simp add: is_decimal_def decimal_value_def nd_blocks_def)
  qed
qed

lemma strip_no_space:
  assumes "list_all (\<lambda>c. \<not> is_space c) w"
  shows "strip w = w"
proof -
  from assms have l: "lstrip w = w"
    by (cases w) (simp_all add: lstrip_def)
  from assms have "rstrip w = w"
    by (cases w rule: rev_cases) (simp_all add: rstrip_def)
  with l show ?thesis by (simp add: strip_def)
qed

lemma strip_digits: "list_all is_decimal w \<Longrightarrow> strip w = w"
  by (rule strip_no_space) (auto simp: list_all_iff dest: decimal_not_space)

lemma alpha_not_space: "cls_ok [Range 97 122, Range 65 90] c \<Longrightarrow> \<not> is_space c"
  by (auto simp: cls_ok_def is_space_def)

lemma strip_alpha: "list_all (cls_ok [Range 97 122, Range 65 90]) w \<Longrightarrow> strip w = w"
  by (rule strip_no_space) (auto simp: list_all_iff dest: alpha_not_space)

lemma int_digits_total:
  "list_all is_decimal w \<Longrightarrow> \<exists>n. int_digits acc w = Some n"
proof (induction acc w rule: int_digits.induct)
  case (1 acc)
  then show ?case by simp
next
  case (2 acc c)
  then show ?case by (auto simp: is_decimal_def)
next
  case (3 acc c d s)
  from "3.prems" have c: "is_decimal c" and r: "list_all is_decimal (d # s)" by simp_all
  from c have ne: "c \<noteq> 95"
    by (auto simp: is_decimal_def decimal_value_def split: if_splits)
  from c obtain v where v: "decimal_value c = Some v" by (auto simp: is_decimal_def)
  from "3.IH"(2) [OF ne v r] ne v show ?case by simp
qed

lemma py_int_digits:
  assumes "w \<noteq> []" and "list_all is_decimal w"
  shows "\<exists>n. py_int w = Inr (int n)"
proof -
  from assms obtain c r where w: "w = c # r" by (cases w) auto
  with assms have c: "is_decimal c" and r: "list_all is_decimal r" by simp_all
  from c obtain v where v: "decimal_value c = Some v" by (auto simp: is_decimal_def)
  from int_digits_total [OF r] obtain n where n: "int_digits v r = Some n" by blast
  from decimal_ge_48 [OF c] have sign: "c \<noteq> 43" "c \<noteq> 45" by auto
  from strip_digits [OF assms(2)] w v n sign show ?thesis
    by (simp add: py_int_def int_unsigned_def Let_def)
qed

lemma ascii_digit_decimal: "48 \<le> c \<and> c \<le> 57 \<Longrightarrow> is_decimal c"
  by (simp add: is_decimal_def decimal_value_def)

text \<open>What \<^verbatim>\<open>_build_date_from_match\<close> returns on a match of the date pattern.\<close>

lemma build_date_from_date_match:
  assumes "re_search DATE_REGX s = Some m"
  shows "\<exists>day name year d y.
           m 1 = Some day \<and> m 2 = Some name \<and> m 3 = Some year
           \<and> py_int day = Inr (int d) \<and> py_int year = Inr (int y)
           \<and> build_date_from_match cfg m =
               (if truthy_int (MONTHS cfg name)
                then and_then (date_new (int y) (the (MONTHS cfg name)) (int d))
                       (\<lambda>dt. Inr (Some dt))
                else Inr None)"
proof -
  from date_groups [OF assms] obtain g1 g2 g3 where
    g: "m 1 = Some g1" "m 2 = Some g2" "m 3 = Some g3"
    and g1: "g1 \<noteq> []" "list_all is_decimal g1"
    and g2: "list_all (cls_ok [Range 97 122, Range 65 90]) g2"
    and g3: "length g3 = 4" "list_all is_decimal g3" by blast
  from py_int_digits [OF g1] obtain d where d: "py_int g1 = Inr (int d)" by blast
  from g3 have "g3 \<noteq> []" by auto
  from py_int_digits [OF this g3(2)] obtain y where y: "py_int g3 = Inr (int y)" by blast
  from g d y strip_alpha [OF g2]
  have "build_date_from_match cfg m =
               (if truthy_int (MONTHS cfg g2)
                then and_then (date_new (int y) (the (MONTHS cfg g2)) (int d))
                       (\<lambda>dt. Inr (Some dt))
                else Inr None)"
    by (simp add: build_date_from_match_def deref_def Let_def)
  with g d y show ?thesis by blast
qed


lemmas date_defs = date_new_def days_in_month_def days_before_month_def days_before_year_def
  is_leap_def DAYS_IN_MONTH_def MAXORDINAL_def timedelta_def date_add_def days_between_def
  py_int_def int_unsigned_def build_date_from_match_def

section \<open>The publication date\<close>

lemma extract_published_at_eq:
  assumes "getitem row (- 1) = Inr r"
    and "getitem (find_all (str_of ''p'') r) (- 1) = Inr p"
  shows "extract_published_at cfg self row =
           (case re_search DATE_REGX (text_of p) of
              None \<Rightarrow> Inr self
            | Some m \<Rightarrow>
                and_then (build_date_from_match cfg m) (\<lambda>d. Inr (self\<lparr>published_at := d\<rparr>)))"
  using assms by (simp add: extract_published_at_def)






section \<open>The feedback window\<close>

lemma extract_feedback_days_eq:
  assumes "getitem row (- 1) = Inr r"
    and "getitem (find_all (str_of ''p'') r) 0 = Inr p"
  shows "extract_feedback_days cfg self row =
       and_then
         (case re_search DATE_REGX (text_of p) of
            Some m \<Rightarrow> build_date_from_match cfg m
          | None \<Rightarrow>
              (case re_search TIMEDELTA_REGX (text_of p) of
                 None \<Rightarrow> Inr None
               | Some delta_match \<Rightarrow>
                   and_then (deref (delta_match 2)) (\<lambda>delta.
                   and_then (py_int delta) (\<lambda>n.
                   and_then (timedelta n) (\<lambda>td.
                   and_then (date_add (published_at self) td) (\<lambda>d. Inr (Some d)))))))
         (\<lambda>feedback_date.
            case feedback_date of
              None \<Rightarrow> Inr self
            | Some f \<Rightarrow>
                and_then (days_between f (published_at self)) (\<lambda>n.
                  Inr (self\<lparr>feedback_days := Some n\<rparr>)))"
  using assms by (simp add: extract_feedback_days_def Let_def)

lemma timedelta_number:
  assumes "re_search TIMEDELTA_REGX s = Some dm"
  shows "\<exists>g n. dm 2 = Some g \<and> py_int g = Inr (int n)"
proof -
  from timedelta_groups [OF assms] obtain g where
    g: "dm 2 = Some g" "g \<noteq> []" "list_all (\<lambda>c. 48 \<le> c \<and> c \<le> 57) g" by blast
  from g(3) have "list_all is_decimal g"
    by (auto simp: list_all_iff intro: ascii_digit_decimal)
  from py_int_digits [OF g(2) this] g(1) show ?thesis by blast
qed


lemma feedback_relative:
  assumes "getitem row (- 1) = Inr r"
    and "getitem (find_all (str_of ''p'') r) 0 = Inr p"
    and "re_search DATE_REGX (text_of p) = None"
    and "re_search TIMEDELTA_REGX (text_of p) = Some dm"
  shows "\<exists>g n. dm 2 = Some g \<and> py_int g = Inr (int n)
           \<and> extract_feedback_days cfg self row =
               and_then (timedelta (int n)) (\<lambda>td.
               and_then (date_add (published_at self) td) (\<lambda>f.
               and_then (days_between f (published_at self)) (\<lambda>k.
                 Inr (self\<lparr>feedback_days := Some k\<rparr>))))"
proof -
  from timedelta_number [OF assms(4)] obtain g n where
    g: "dm 2 = Some g" "py_int g = Inr (int n)" by blast
  have "extract_feedback_days cfg self row =
               and_then (timedelta (int n)) (\<lambda>td.
               and_then (date_add (published_at self) td) (\<lambda>f.
               and_then (days_between f (published_at self)) (\<lambda>k.
                 Inr (self\<lparr>feedback_days := Some k\<rparr>))))"
    by (cases "timedelta (int n)"; cases "date_add (published_at self) (projr (timedelta (int n)))")
       (simp_all add: extract_feedback_days_eq [OF assms(1,2)] assms(3,4) g deref_def)
  with g show ?thesis by blast
qed







section \<open>The constructor\<close>

lemma getitem_first: "getitem (x # xs) 0 = Inr x"
  by (simp add: getitem_def)

lemma getitem_last: "xs \<noteq> [] \<Longrightarrow> getitem xs (- 1) = Inr (last xs)"
  by (cases xs rule: rev_cases) (simp_all add: getitem_def)

lemma getitem_0_Inr: "getitem xs 0 = Inr x \<Longrightarrow> \<exists>ys. xs = x # ys"
  by (cases xs) (simp_all add: getitem_def)

text \<open>Each method writes its own attributes and no other.\<close>

lemma extract_article_type_writes:
  "extract_article_type cfg self row = Inr s \<Longrightarrow> \<exists>t. s = self\<lparr>article_type := t\<rparr>"
  by (auto simp: extract_article_type_def and_then_eq_Inr Let_def split: if_splits)

lemma extract_title_writes:
  assumes "extract_title cfg rt self row = Inr s"
  shows "\<exists>t u. s = self\<lparr>article_type := t, title := u\<rparr>"
proof -
  from assms obtain s1 where s1: "extract_article_type cfg self row = Inr s1"
    and "\<exists>u. s = s1\<lparr>title := u\<rparr>"
    by (auto simp: extract_title_def and_then_eq_Inr Let_def)
  with extract_article_type_writes [OF s1] show ?thesis by auto
qed

lemma build_contact_writes:
  "build_contact rt self row = Inr s \<Longrightarrow> \<exists>c. s = self\<lparr>contact := c\<rparr>"
  by (auto simp: build_contact_def and_then_eq_Inr)

lemma build_documents_writes:
  "build_documents cfg self row = Inr s \<Longrightarrow> \<exists>d. s = self\<lparr>documents := d\<rparr>"
  by (auto simp: build_documents_def and_then_eq_Inr Let_def)

lemma extract_published_at_writes:
  "extract_published_at cfg self row = Inr s \<Longrightarrow> s = self \<or> (\<exists>d. s = self\<lparr>published_at := d\<rparr>)"
  by (auto simp: extract_published_at_def and_then_eq_Inr split: option.splits)

lemma generate_id_writes:
  "generate_id rt self = Inr s \<Longrightarrow> s = self \<or> (\<exists>i. s = self\<lparr>identifier := i\<rparr>)"
  by (auto simp: generate_id_def and_then_eq_Inr split: if_splits)

lemma init_steps:
  assumes "init cfg rt table = Inr a"
  shows "\<exists>s4 s5 s6.
           published_at s4 = None \<and> feedback_days s4 = None
           \<and> extract_published_at cfg s4 (select (str_of ''tr'') table) = Inr s5
           \<and> extract_feedback_days cfg s5 (select (str_of ''tr'') table) = Inr s6
           \<and> published_at a = published_at s6 \<and> feedback_days a = feedback_days s6"
proof -
  let ?tr = "select (str_of ''tr'') table"
  from assms obtain s1 s2 s3 s4 s5 s6 where
    1: "extract_article_type cfg new_article ?tr = Inr s1"
    and 2: "extract_title cfg rt s1 ?tr = Inr s2"
    and 3: "build_contact rt s2 ?tr = Inr s3"
    and 4: "build_documents cfg s3 ?tr = Inr s4"
    and 5: "extract_published_at cfg s4 ?tr = Inr s5"
    and 6: "extract_feedback_days cfg s5 ?tr = Inr s6"
    and 7: "generate_id rt s6 = Inr a"
    unfolding init_def Let_def and_then_eq_Inr by blast
  from extract_article_type_writes [OF 1] extract_title_writes [OF 2]
    build_contact_writes [OF 3] build_documents_writes [OF 4]
  have "published_at s4 = None \<and> feedback_days s4 = None"
    by (auto simp: new_article_def)
  moreover from generate_id_writes [OF 7]
  have "published_at a = published_at s6 \<and> feedback_days a = feedback_days s6" by auto
  ultimately show ?thesis using 5 6 by blast
qed


lemma published_stays_unset:
  assumes "getitem row (- 1) = Inr r" and "find_all (str_of ''p'') r = p # ps"
    and "\<not> truthy_int (get (MONTHS cfg) (group_text DATE_REGX (text_of (last (p # ps))) 2))"
    and "published_at self = None"
    and "extract_published_at cfg self row = Inr s"
  shows "published_at s = None \<and> feedback_days s = feedback_days self"
proof -
  have l: "getitem (find_all (str_of ''p'') r) (- 1) = Inr (last (p # ps))"
    unfolding assms(2) by (rule getitem_last) simp
  show ?thesis
  proof (cases "re_search DATE_REGX (text_of (last (p # ps)))")
    case None
    with assms(4,5) show ?thesis
      by (simp add: extract_published_at_eq [OF assms(1) l])
  next
    case (Some m)
    from build_date_from_date_match [OF Some, of cfg] obtain name d y where
      n: "m 2 = Some name"
      and b: "build_date_from_match cfg m =
               (if truthy_int (MONTHS cfg name)
                then and_then (date_new (int y) (the (MONTHS cfg name)) (int d))
                       (\<lambda>dt. Inr (Some dt))
                else Inr None)" by blast
    from assms(3) Some n have "\<not> truthy_int (MONTHS cfg name)"
      by (simp add: group_text_def get_def)
    with assms(5) Some b show ?thesis
      by (auto simp: extract_published_at_eq [OF assms(1) l])
  qed
qed

lemma relative_without_publication:
  assumes "getitem row (- 1) = Inr r" and "find_all (str_of ''p'') r = p # ps"
    and "published_at self = None"
    and "re_search DATE_REGX (text_of p) = None"
    and "re_search TIMEDELTA_REGX (text_of p) = Some dm"
  shows "\<exists>g n. dm 2 = Some g \<and> py_int g = Inr (int n)
           \<and> extract_feedback_days cfg self row
               = Inl (if int n \<le> 999999999 then TypeError else OverflowError)"
proof -
  have f: "getitem (find_all (str_of ''p'') r) 0 = Inr p"
    unfolding assms(2) by (rule getitem_first)
  from feedback_relative [OF assms(1) f assms(4,5), of cfg self] obtain g n where
    g: "dm 2 = Some g" "py_int g = Inr (int n)"
    and e: "extract_feedback_days cfg self row =
               and_then (timedelta (int n)) (\<lambda>td.
               and_then (date_add (published_at self) td) (\<lambda>f.
               and_then (days_between f (published_at self)) (\<lambda>k.
                 Inr (self\<lparr>feedback_days := Some k\<rparr>))))" by blast
  have "extract_feedback_days cfg self row
               = Inl (if int n \<le> 999999999 then TypeError else OverflowError)"
    by (simp add: e assms(3) timedelta_def date_add_def)
  with g show ?thesis by blast
qed

lemma feedback_days_inversion:
  assumes "extract_feedback_days cfg self row = Inr s"
    and "feedback_days self = None" and "feedback_days s = Some n"
  shows "\<exists>r p ps pub f.
           getitem row (- 1) = Inr r \<and> find_all (str_of ''p'') r = p # ps
           \<and> published_at self = Some pub \<and> published_at s = Some pub
           \<and> n = toordinal f - toordinal pub
           \<and> ((\<exists>m day name year d y.
                  re_search DATE_REGX (text_of p) = Some m
                  \<and> m 1 = Some day \<and> m 2 = Some name \<and> m 3 = Some year
                  \<and> py_int day = Inr (int d) \<and> py_int year = Inr (int y)
                  \<and> truthy_int (MONTHS cfg name)
                  \<and> date_new (int y) (the (MONTHS cfg name)) (int d) = Inr f)
              \<or> (re_search DATE_REGX (text_of p) = None
                  \<and> (\<exists>dm g k. re_search TIMEDELTA_REGX (text_of p) = Some dm
                        \<and> dm 2 = Some g \<and> py_int g = Inr (int k)
                        \<and> date_add (Some pub) (int k) = Inr f \<and> n = int k)))"
proof -
  from assms(1) obtain r p where r: "getitem row (- 1) = Inr r"
    and p: "getitem (find_all (str_of ''p'') r) 0 = Inr p"
    by (auto simp: extract_feedback_days_def and_then_eq_Inr)
  from getitem_0_Inr [OF p] obtain ps where ps: "find_all (str_of ''p'') r = p # ps" by blast
  note eq = extract_feedback_days_eq [OF r p, of cfg self]
  show ?thesis
  proof (cases "re_search DATE_REGX (text_of p)")
    case (Some m)
    from build_date_from_date_match [OF Some, of cfg] obtain day name year d y where
      g: "m 1 = Some day" "m 2 = Some name" "m 3 = Some year"
      "py_int day = Inr (int d)" "py_int year = Inr (int y)"
      and b: "build_date_from_match cfg m =
               (if truthy_int (MONTHS cfg name)
                then and_then (date_new (int y) (the (MONTHS cfg name)) (int d))
                       (\<lambda>dt. Inr (Some dt))
                else Inr None)" by blast
    have t: "truthy_int (MONTHS cfg name)"
    proof (rule ccontr)
      assume "\<not> truthy_int (MONTHS cfg name)"
      with assms(1) have "s = self" by (simp add: eq Some b)
      with assms(2,3) show False by simp
    qed
    from assms(1) t obtain f where f: "date_new (int y) (the (MONTHS cfg name)) (int d) = Inr f"
      by (cases "date_new (int y) (the (MONTHS cfg name)) (int d)") (simp_all add: eq Some b)
    from assms(1) t f obtain pub where pub: "published_at self = Some pub"
      by (cases "published_at self") (simp_all add: eq Some b days_between_def)
    from assms(1) t f pub have s: "s = self\<lparr>feedback_days := Some (toordinal f - toordinal pub)\<rparr>"
      by (simp add: eq Some b days_between_def)
    with assms(3) have n: "n = toordinal f - toordinal pub" by simp
    from s pub have pubs: "published_at s = Some pub" by simp
    have "\<exists>m day name year d y.
                  re_search DATE_REGX (text_of p) = Some m
                  \<and> m 1 = Some day \<and> m 2 = Some name \<and> m 3 = Some year
                  \<and> py_int day = Inr (int d) \<and> py_int year = Inr (int y)
                  \<and> truthy_int (MONTHS cfg name)
                  \<and> date_new (int y) (the (MONTHS cfg name)) (int d) = Inr f"
      using Some g t f by blast
    with r ps pub pubs n show ?thesis by blast
  next
    case None
    show ?thesis
    proof (cases "re_search TIMEDELTA_REGX (text_of p)")
      case N: None
      with assms(1) None have "s = self" by (simp add: eq)
      with assms(2,3) show ?thesis by simp
    next
      case (Some dm)
      from feedback_relative [OF r p None Some, of cfg self] obtain g k where
        g: "dm 2 = Some g" "py_int g = Inr (int k)"
        and e: "extract_feedback_days cfg self row =
               and_then (timedelta (int k)) (\<lambda>td.
               and_then (date_add (published_at self) td) (\<lambda>f.
               and_then (days_between f (published_at self)) (\<lambda>j.
                 Inr (self\<lparr>feedback_days := Some j\<rparr>))))" by blast
      from assms(1) [unfolded e and_then_eq_Inr] obtain td f j where
        td: "timedelta (int k) = Inr td" and f: "date_add (published_at self) td = Inr f"
        and j: "days_between f (published_at self) = Inr j"
        and s: "s = self\<lparr>feedback_days := Some j\<rparr>" by auto
      from td have tdk: "td = int k" by (auto simp: timedelta_def split: if_splits)
      from f obtain pub where pub: "published_at self = Some pub"
        by (cases "published_at self") (simp_all add: date_add_def)
      from f pub tdk have fo: "toordinal f = toordinal pub + int k"
        by (auto simp: date_add_def split: if_splits)
      from j pub fo have jk: "j = int k" by (simp add: days_between_def)
      from s assms(3) jk have n: "n = int k" by simp
      from s pub have pubs: "published_at s = Some pub" by simp
      have "re_search DATE_REGX (text_of p) = None
                  \<and> (\<exists>dm g k. re_search TIMEDELTA_REGX (text_of p) = Some dm
                        \<and> dm 2 = Some g \<and> py_int g = Inr (int k)
                        \<and> date_add (Some pub) (int k) = Inr f \<and> n = int k)"
        using None Some g f pub tdk n by auto
      moreover from n fo have "n = toordinal f - toordinal pub" by simp
      ultimately show ?thesis using r ps pub pubs by blast
    qed
  qed
qed


subsection \<open>The constructor on the example tables\<close>

lemma notice_rows:
  "select (str_of ''tr'') (notice_table x y) = [head_row, notice_row x y]"
  "find_all (str_of ''p'') (notice_row x y) = [para x, para y]"
  "select (str_of ''p'') (notice_row x y) = [para x, para y]"
  "getitem [head_row, notice_row x y] (- 1) = Inr (notice_row x y)"
  "text_of (para x) = str_of x"
  by (simp_all add: notice_table_def head_row_def notice_row_def dom_defs str_of_def)

lemma notice_type:
  "extract_article_type example_settings self [head_row, r]
     = Inr (self\<lparr>article_type := Some (str_of ''HG'')\<rparr>)"
  by (simp add: extract_article_type_def example_settings_def head_row_def dom_defs str_defs
        str_of_def)

lemma notice_title:
  "extract_title example_settings example_runtime self [head_row, r]
     = Inr (self\<lparr>article_type := Some (str_of ''HG''),
                 title := Some (str_of ''Hg privind ceva'')\<rparr>)"
  unfolding extract_title_def notice_type
  by (simp add: head_row_def dom_defs str_defs str_of_def example_runtime_def)

lemma notice_documents:
  "build_documents example_settings self [head_row, notice_row x y]
     = Inr (self\<lparr>documents :=
              Some [\<lparr>type = (if truthy (article_type self)
                              then Some (the (article_type self) @ ANEXA) else None),
                     url = str_of ''http://mae.ro/d1.pdf''\<rparr>,
                    \<lparr>type = Some (str_of ''Nota'' @ replace_char 0x200B []
                                     (replace_char 10 [] (str_of x @ str_of y)) @ ANEXA),
                     url = str_of ''http://mae.ro/d2.pdf''\<rparr>]\<rparr>)"
  by (simp add: build_documents_def link_href_def head_row_def notice_row_def dom_defs
        sanitize_def replace_char_def example_settings_def str_of_def Let_def truthy_def
        ANEXA_def)

lemma no_contact:
  "capture1 EMAIL_REGX (str_of ''Propuneri pana la 10 ianuarie 2020'') = None"
  "capture1 TEL_REGX (str_of ''Propuneri pana la 10 ianuarie 2020'') = None"
  "capture1 FAX_REGX (str_of ''Propuneri pana la 10 ianuarie 2020'') = None"
  "capture1 ADDR_REGX (str_of ''Propuneri pana la 10 ianuarie 2020'') = None"
  "capture1 EMAIL_REGX (str_of ''Propuneri pana la 20 ianuarie 2020'') = None"
  "capture1 TEL_REGX (str_of ''Propuneri pana la 20 ianuarie 2020'') = None"
  "capture1 FAX_REGX (str_of ''Propuneri pana la 20 ianuarie 2020'') = None"
  "capture1 ADDR_REGX (str_of ''Propuneri pana la 20 ianuarie 2020'') = None"
  "capture1 EMAIL_REGX (str_of ''Propuneri timp de 10 zile'') = None"
  "capture1 TEL_REGX (str_of ''Propuneri timp de 10 zile'') = None"
  "capture1 FAX_REGX (str_of ''Propuneri timp de 10 zile'') = None"
  "capture1 ADDR_REGX (str_of ''Propuneri timp de 10 zile'') = None"
  by (simp_all add: capture1_def rx_eval)

lemma notice_contact:
  "build_contact rt self [head_row, notice_row x y]
     = Inr (self\<lparr>contact := Some (List.map_filter (stored (str_of x)) CONTACT_REGX)\<rparr>)"
  using build_contact_eq [OF notice_rows(4) notice_rows(3), of rt self x y]
  by (simp add: notice_rows(5))

lemma notice_no_contact:
  "List.map_filter (stored (str_of ''Propuneri pana la 10 ianuarie 2020'')) CONTACT_REGX = []"
  "List.map_filter (stored (str_of ''Propuneri pana la 20 ianuarie 2020'')) CONTACT_REGX = []"
  "List.map_filter (stored (str_of ''Propuneri timp de 10 zile'')) CONTACT_REGX = []"
  by (simp_all add: CONTACT_REGX_def List.map_filter_simps stored_def no_contact)

lemma notice_published:
  "extract_published_at example_settings self [head_row, notice_row x ''Publicat 15 ianuarie 2020'']
     = Inr (self\<lparr>published_at := Some (Date 737439)\<rparr>)"
  "extract_published_at example_settings self [head_row, notice_row x ''Publicat recent'']
     = Inr self"
  by (simp_all add: extract_published_at_def notice_row_def dom_defs rx_eval date_defs str_defs
        example_settings_def)

lemma notice_feedback:
  "extract_feedback_days example_settings (self\<lparr>published_at := Some (Date 737439)\<rparr>)
       [head_row, notice_row ''Propuneri pana la 10 ianuarie 2020'' y]
     = Inr (self\<lparr>published_at := Some (Date 737439), feedback_days := Some (- 5)\<rparr>)"
  "extract_feedback_days example_settings (self\<lparr>published_at := Some (Date 737439)\<rparr>)
       [head_row, notice_row ''Propuneri pana la 20 ianuarie 2020'' y]
     = Inr (self\<lparr>published_at := Some (Date 737439), feedback_days := Some 5\<rparr>)"
  by (simp_all add: extract_feedback_days_def notice_row_def dom_defs rx_eval date_defs str_defs
        example_settings_def)

lemma notice_feedback_undated:
  "extract_feedback_days example_settings (self\<lparr>published_at := None\<rparr>)
       [head_row, notice_row ''Propuneri timp de 10 zile'' y]
     = Inl TypeError"
  by (simp add: extract_feedback_days_def notice_row_def dom_defs rx_eval date_defs str_defs
        example_settings_def)

lemma title_digest:
  "utf8_encode (str_of ''Hg privind ceva'') = Inr (str_of ''Hg privind ceva'')"
  by (simp add: str_of_def encode_cp_def)

lemma early_deadline_init:
  "init example_settings example_runtime early_deadline_table
     = Inr (notice_article ''Propuneri pana la 10 ianuarie 2020'' (- 5))"
  unfolding init_def early_deadline_table_def Let_def notice_rows notice_type and_then_Inr
    notice_title notice_contact notice_no_contact notice_documents notice_published
    notice_feedback
  by (simp add: generate_id_def title_digest [unfolded str_of_def, simplified] truthy_def
        ANEXA_def replace_char_def new_article_def example_runtime_def hex_digit_def str_of_def
        notice_article_def)

lemma deadline_init:
  "init example_settings example_runtime deadline_table
     = Inr (notice_article ''Propuneri pana la 20 ianuarie 2020'' 5)"
  unfolding init_def deadline_table_def Let_def notice_rows notice_type and_then_Inr
    notice_title notice_contact notice_no_contact notice_documents notice_published
    notice_feedback
  by (simp add: generate_id_def title_digest [unfolded str_of_def, simplified] truthy_def
        ANEXA_def replace_char_def new_article_def example_runtime_def hex_digit_def str_of_def
        notice_article_def)

lemma undated_init:
  "init example_settings example_runtime undated_table = Inl TypeError"
  unfolding init_def undated_table_def Let_def notice_rows notice_type and_then_Inr
    notice_title notice_contact notice_no_contact notice_documents notice_published
  using notice_feedback_undated [of "new_article
       \<lparr>article_type := Some (str_of ''HG''),
        title := Some (str_of ''Hg privind ceva''),
        contact := Some [],
        documents := Some
          [\<lparr>type = Some (str_of ''HG - ANEXA''), url = str_of ''http://mae.ro/d1.pdf''\<rparr>,
           \<lparr>type = Some (str_of ''NotaPropuneri timp de 10 zilePublicat recent - ANEXA''),
            url = str_of ''http://mae.ro/d2.pdf''\<rparr>]\<rparr>" "''Publicat recent''"]
  by (simp add: truthy_def ANEXA_def replace_char_def new_article_def str_of_def)

text \<open>
  C10. On a row-group whose last paragraph leaves \<^verbatim>\<open>published_at\<close> unset (the date
  pattern does not match it, or its month is in no table) and whose first
  paragraph does not match the date pattern but matches "timp de N zile", the
  constructor raises: \<^verbatim>\<open>_extract_feedback_days\<close> adds a timedelta to \<^verbatim>\<open>None\<close>
  (TypeError; OverflowError from \<^verbatim>\<open>timedelta\<close> itself when N exceeds 999999999), so
  \<^verbatim>\<open>feedback_days\<close> is not left unset.
\<close>

theorem relative_deadline_without_publication_raises:
  assumes "getitem (select (str_of ''tr'') table) (- 1) = Inr r"
    and "find_all (str_of ''p'') r = p # ps"
    and "\<not> truthy_int (get (MONTHS cfg) (group_text DATE_REGX (text_of (last (p # ps))) 2))"
    and "re_search DATE_REGX (text_of p) = None"
    and "re_search TIMEDELTA_REGX (text_of p) = Some dm"
  shows "(\<exists>e. init cfg rt table = Inl e)
       \<and> (\<forall>self. published_at self = None \<longrightarrow>
            (\<exists>g n. dm 2 = Some g \<and> py_int g = Inr (int n)
               \<and> extract_feedback_days cfg self (select (str_of ''tr'') table)
                   = Inl (if int n \<le> 999999999 then TypeError else OverflowError)))"
proof (intro conjI allI impI)
  show "\<exists>e. init cfg rt table = Inl e"
  proof (cases "init cfg rt table")
    case (Inl e)
    then show ?thesis by blast
  next
    case (Inr a)
    from init_steps [OF Inr] obtain s4 s5 s6 where
      s4: "published_at s4 = None"
      and 5: "extract_published_at cfg s4 (select (str_of ''tr'') table) = Inr s5"
      and 6: "extract_feedback_days cfg s5 (select (str_of ''tr'') table) = Inr s6"
      by blast
    from published_stays_unset [OF assms(1,2,3) s4 5] have "published_at s5 = None" by simp
    from relative_without_publication [OF assms(1,2) this assms(4,5), of cfg] 6
    show ?thesis by auto
  qed
next
  fix self :: article
  assume "published_at self = None"
  from relative_without_publication [OF assms(1,2) this assms(4,5), of cfg]
  show "\<exists>g n. dm 2 = Some g \<and> py_int g = Inr (int n)
               \<and> extract_feedback_days cfg self (select (str_of ''tr'') table)
                   = Inl (if int n \<le> 999999999 then TypeError else OverflowError)" .
qed

theorem undated_relative_deadline_raises:
  "getitem (select (str_of ''tr'') undated_table) (- 1)
     = Inr (notice_row ''Propuneri timp de 10 zile'' ''Publicat recent'')
   \<and> find_all (str_of ''p'') (notice_row ''Propuneri timp de 10 zile'' ''Publicat recent'')
       = [para ''Propuneri timp de 10 zile'', para ''Publicat recent'']
   \<and> group_text DATE_REGX (str_of ''Publicat recent'') 2 = None
   \<and> re_search DATE_REGX (str_of ''Propuneri timp de 10 zile'') = None
   \<and> group_text TIMEDELTA_REGX (str_of ''Propuneri timp de 10 zile'') 2 = Some (str_of ''10'')
   \<and> init example_settings example_runtime undated_table = Inl TypeError"
proof -
  have r: "getitem (select (str_of ''tr'') undated_table) (- 1)
     = Inr (notice_row ''Propuneri timp de 10 zile'' ''Publicat recent'')"
    by (simp add: undated_table_def notice_rows)
  have g: "group_text DATE_REGX (str_of ''Publicat recent'') 2 = None"
    "re_search DATE_REGX (str_of ''Propuneri timp de 10 zile'') = None"
    "group_text TIMEDELTA_REGX (str_of ''Propuneri timp de 10 zile'') 2 = Some (str_of ''10'')"
    by (simp_all add: rx_eval group_text_def)
  obtain dm where dm: "re_search TIMEDELTA_REGX (str_of ''Propuneri timp de 10 zile'') = Some dm"
    using g(3) by (auto simp: group_text_def split: option.splits)
  have u: "\<not> truthy_int (get (MONTHS example_settings)
      (group_text DATE_REGX (text_of (last [para ''Propuneri timp de 10 zile'',
         para ''Publicat recent''])) 2))"
    by (simp add: notice_rows(5) g(1) get_def truthy_int_def)
  from relative_deadline_without_publication_raises [OF r notice_rows(2) u
      g(2) [folded notice_rows(5)] dm [folded notice_rows(5)], of example_runtime]
  have "\<exists>e. init example_settings example_runtime undated_table = Inl e" by blast
  with r g undated_init notice_rows(2) show ?thesis by simp
qed


text \<open>
  C3, amended. In every constructed Article whose \<^verbatim>\<open>feedback_days\<close> is set,
  \<^verbatim>\<open>published_at\<close> is set too and \<^verbatim>\<open>feedback_days\<close> is the number of days from
  \<^verbatim>\<open>published_at\<close> to the resolved deadline: the date the first paragraph states, or
  \<^verbatim>\<open>published_at\<close> plus the N of "timp de N zile" (then it is N, not negative). It is
  negative when the stated date is before \<^verbatim>\<open>published_at\<close>.
\<close>

theorem feedback_days_is_difference:
  assumes "init cfg rt table = Inr a" and "feedback_days a = Some n"
  shows "\<exists>r p ps pub f.
           getitem (select (str_of ''tr'') table) (- 1) = Inr r
           \<and> find_all (str_of ''p'') r = p # ps
           \<and> published_at a = Some pub
           \<and> n = toordinal f - toordinal pub
           \<and> ((\<exists>m day name year d y.
                  re_search DATE_REGX (text_of p) = Some m
                  \<and> m 1 = Some day \<and> m 2 = Some name \<and> m 3 = Some year
                  \<and> py_int day = Inr (int d) \<and> py_int year = Inr (int y)
                  \<and> truthy_int (MONTHS cfg name)
                  \<and> date_new (int y) (the (MONTHS cfg name)) (int d) = Inr f)
              \<or> (re_search DATE_REGX (text_of p) = None
                  \<and> (\<exists>dm g k. re_search TIMEDELTA_REGX (text_of p) = Some dm
                        \<and> dm 2 = Some g \<and> py_int g = Inr (int k)
                        \<and> date_add (Some pub) (int k) = Inr f \<and> n = int k)))"
proof -
  from init_steps [OF assms(1)] obtain s4 s5 s6 where
    s4: "published_at s4 = None" "feedback_days s4 = None"
    and 5: "extract_published_at cfg s4 (select (str_of ''tr'') table) = Inr s5"
    and 6: "extract_feedback_days cfg s5 (select (str_of ''tr'') table) = Inr s6"
    and a: "published_at a = published_at s6" "feedback_days a = feedback_days s6"
    by blast
  from extract_published_at_writes [OF 5] s4(2) have "feedback_days s5 = None" by auto
  from feedback_days_inversion [OF 6 this, of n] assms(2) a show ?thesis by auto
qed

theorem feedback_days_example:
  "init example_settings example_runtime deadline_table
     = Inr (notice_article ''Propuneri pana la 20 ianuarie 2020'' 5)
   \<and> feedback_days (notice_article ''Propuneri pana la 20 ianuarie 2020'' 5) = Some 5
   \<and> published_at (notice_article ''Propuneri pana la 20 ianuarie 2020'' 5)
       = Some (Date 737439)
   \<and> date_new 2020 1 15 = Inr (Date 737439)
   \<and> date_new 2020 1 20 = Inr (Date 737444)"
proof -
  have f: "feedback_days (notice_article ''Propuneri pana la 20 ianuarie 2020'' 5) = Some 5"
    by (simp add: notice_article_def)
  from feedback_days_is_difference [OF deadline_init f]
  have "\<exists>pub. published_at (notice_article ''Propuneri pana la 20 ianuarie 2020'' 5) = Some pub"
    by blast
  then have "published_at (notice_article ''Propuneri pana la 20 ianuarie 2020'' 5)
       = Some (Date 737439)"
    by (simp add: notice_article_def)
  with deadline_init f show ?thesis by (simp add: date_defs)
qed

text \<open>The claim as stated fails where the stated deadline is before the publication:
  published 15 ianuarie 2020, deadline 10 ianuarie 2020.\<close>

theorem negative_feedback_days:
  "init example_settings example_runtime early_deadline_table
     = Inr (notice_article ''Propuneri pana la 10 ianuarie 2020'' (- 5))
   \<and> feedback_days (notice_article ''Propuneri pana la 10 ianuarie 2020'' (- 5)) = Some (- 5)
   \<and> published_at (notice_article ''Propuneri pana la 10 ianuarie 2020'' (- 5))
       = Some (Date 737439)
   \<and> date_new 2020 1 15 = Inr (Date 737439)
   \<and> date_new 2020 1 10 = Inr (Date 737434)"
  by (simp add: early_deadline_init notice_article_def date_defs)

end
